theory Spec2Isabelle
  imports Complex_Main "HOL-Library.Word" "HOL-Library.AList"
begin

unbundle bit_operations_syntax

text \<open>
  A model of the flagd web provider (\<^verbatim>\<open>flagd-web-provider.ts\<close>): the request fingerprint,
  the cache it keys, the callbacks of the event stream with the retry loop, and the four
  resolve methods. The provider is a record that every operation takes and returns; the
  remote service, the clock and the random numbers are arguments. The packages the
  provider imports (JSON, ts-md5, node-cache) are modelled by what they compute.
\<close>

section \<open>JSON values and JSON.stringify\<close>

text \<open>
  The provider of \<^verbatim>\<open>flagd-web-provider.ts\<close> handles JSON data in three places: the
  evaluation context of a request, the payload of a stream message and the value of a
  resolved flag. An object is the list of its properties in the order in which they were
  created, with distinct names. Strings are byte strings (the UTF-8 encoding, which is
  what the hash consumes). Numbers are the safe integers, from \<open>-2^53\<close> to \<open>2^53 - 1\<close>:
  JavaScript holds each of them exactly and writes it in full decimal.
\<close>

type_synonym safe_integer = "54 word"

datatype JsonValue =
    JNull
  | JBool bool
  | JNum safe_integer
  | JStr string
  | JArr "JsonValue list"
  | JObj "(string \<times> JsonValue) list"

type_synonym EvaluationContext = "(string \<times> JsonValue) list"

type_synonym Struct = "(string \<times> JsonValue) list"

function digits :: "int \<Rightarrow> string" where
  "digits n =
     (if n < 10 then [''0123456789'' ! nat n]
      else digits (n div 10) @ [''0123456789'' ! nat (n mod 10)])"
  by pat_completeness auto
termination
  by (relation "measure nat") auto

definition number_toString :: "safe_integer \<Rightarrow> string" where
  "number_toString w = (let n = sint w in if n < 0 then CHR ''-'' # digits (- n) else digits n)"

text \<open>
  JavaScript does not enumerate the properties of an object in creation order throughout:
  the names that are array indices (the canonical decimal numerals below \<open>2^32 - 1\<close>)
  come first, in ascending numeric order, and the other names follow in creation order.
  A numeral is canonical when writing its value gives it back.
\<close>

definition is_digit :: "char \<Rightarrow> bool" where
  "is_digit c = (c \<in> set ''0123456789'')"

definition decimal :: "string \<Rightarrow> int" where
  "decimal s = foldl (\<lambda>n c. 10 * n + (of_char c - 48)) 0 s"

definition is_index :: "string \<Rightarrow> bool" where
  "is_index s = (list_all is_digit s \<and> digits (decimal s) = s \<and> decimal s < 4294967295)"

definition property_order :: "(string \<times> 'v) list \<Rightarrow> (string \<times> 'v) list" where
  "property_order kvs =
     sort_key (\<lambda>kv. decimal (fst kv)) (filter (\<lambda>kv. is_index (fst kv)) kvs)
       @ filter (\<lambda>kv. \<not> is_index (fst kv)) kvs"

fun join :: "string \<Rightarrow> string list \<Rightarrow> string" where
  "join sep [] = []"
| "join sep [x] = x"
| "join sep (x # y # ys) = x @ sep @ join sep (y # ys)"

definition hex4 :: "nat \<Rightarrow> string" where
  "hex4 n = map (\<lambda>d. ''0123456789abcdef'' ! d)
     [n div 4096 mod 16, n div 256 mod 16, n div 16 mod 16, n mod 16]"

text \<open>The escapes of JSON.stringify: the quote, the backslash and the control characters.\<close>

definition escape_char :: "char \<Rightarrow> string" where
  "escape_char c =
     (if c = CHR 0x22 then [CHR 0x5C, CHR 0x22]
      else if c = CHR 0x5C then [CHR 0x5C, CHR 0x5C]
      else if c = CHR 0x08 then [CHR 0x5C, CHR ''b'']
      else if c = CHR 0x09 then [CHR 0x5C, CHR ''t'']
      else if c = CHR 0x0A then [CHR 0x5C, CHR ''n'']
      else if c = CHR 0x0C then [CHR 0x5C, CHR ''f'']
      else if c = CHR 0x0D then [CHR 0x5C, CHR ''r'']
      else if (of_char c :: nat) < 32 then [CHR 0x5C, CHR ''u''] @ hex4 (of_char c)
      else [c])"

definition quote :: "string \<Rightarrow> string" where
  "quote s = [CHR 0x22] @ concat (map escape_char s) @ [CHR 0x22]"

fun JSON_stringify :: "JsonValue \<Rightarrow> string" where
  "JSON_stringify JNull = ''null''"
| "JSON_stringify (JBool b) = (if b then ''true'' else ''false'')"
| "JSON_stringify (JNum n) = number_toString n"
| "JSON_stringify (JStr s) = quote s"
| "JSON_stringify (JArr xs) = ''['' @ join '','' (map JSON_stringify xs) @ '']''"
| "JSON_stringify (JObj kvs) =
     ''{'' @ join '',''
        (map (\<lambda>kt. quote (fst kt) @ '':'' @ snd kt)
           (property_order (map (\<lambda>kv. (fst kv, JSON_stringify (snd kv))) kvs))) @ ''}''"

text \<open>
  The value read back from its own text, \<^verbatim>\<open>JSON.parse(JSON.stringify(v))\<close>: every
  object is created anew, its properties in the order of the text.
\<close>

fun reparse :: "JsonValue \<Rightarrow> JsonValue" where
  "reparse (JArr xs) = JArr (map reparse xs)"
| "reparse (JObj kvs) = JObj (property_order (map (\<lambda>kv. (fst kv, reparse (snd kv))) kvs))"
| "reparse v = v"

text \<open>
  \<^verbatim>\<open>Struct.fromJsonString(JSON.stringify(transformedContext))\<close>: the protobuf Struct read
  back from the serialised context has one field per property of the context, created in
  the order of the text, and serialises its fields in their enumeration order again.
\<close>

definition Struct_fromJsonString :: "EvaluationContext \<Rightarrow> Struct" where
  "Struct_fromJsonString transformedContext =
     property_order (map (\<lambda>kv. (fst kv, reparse (snd kv))) transformedContext)"

text \<open>Two contexts are content-equal when they hold the same key/value pairs.\<close>

definition context_equal :: "EvaluationContext \<Rightarrow> EvaluationContext \<Rightarrow> bool" where
  "context_equal c1 c2 = (set c1 = set c2)"

section \<open>Md5.hashStr\<close>

text \<open>
  \<^verbatim>\<open>Md5.hashStr\<close> of the ts-md5 package returns the MD5 digest of the bytes of a string as
  32 lower-case hexadecimal digits. The digest is computed as RFC 1321 defines it: the
  message is padded to a multiple of 64 bytes, and each block of sixteen little-endian
  32-bit words goes through 64 steps on a state of four 32-bit words.
\<close>

type_synonym w32 = "32 word"

definition md5_K :: "w32 list" where
  "md5_K = [
  0xd76aa478, 0xe8c7b756, 0x242070db, 0xc1bdceee, 0xf57c0faf, 0x4787c62a, 0xa8304613, 0xfd469501,
  0x698098d8, 0x8b44f7af, 0xffff5bb1, 0x895cd7be, 0x6b901122, 0xfd987193, 0xa679438e, 0x49b40821,
  0xf61e2562, 0xc040b340, 0x265e5a51, 0xe9b6c7aa, 0xd62f105d, 0x02441453, 0xd8a1e681, 0xe7d3fbc8,
  0x21e1cde6, 0xc33707d6, 0xf4d50d87, 0x455a14ed, 0xa9e3e905, 0xfcefa3f8, 0x676f02d9, 0x8d2a4c8a,
  0xfffa3942, 0x8771f681, 0x6d9d6122, 0xfde5380c, 0xa4beea44, 0x4bdecfa9, 0xf6bb4b60, 0xbebfbc70,
  0x289b7ec6, 0xeaa127fa, 0xd4ef3085, 0x04881d05, 0xd9d4d039, 0xe6db99e5, 0x1fa27cf8, 0xc4ac5665,
  0xf4292244, 0x432aff97, 0xab9423a7, 0xfc93a039, 0x655b59c3, 0x8f0ccc92, 0xffeff47d, 0x85845dd1,
  0x6fa87e4f, 0xfe2ce6e0, 0xa3014314, 0x4e0811a1, 0xf7537e82, 0xbd3af235, 0x2ad7d2bb, 0xeb86d391]"

definition md5_S :: "nat list" where
  "md5_S = [7, 12, 17, 22, 7, 12, 17, 22, 7, 12, 17, 22, 7, 12, 17, 22,
            5, 9, 14, 20, 5, 9, 14, 20, 5, 9, 14, 20, 5, 9, 14, 20,
            4, 11, 16, 23, 4, 11, 16, 23, 4, 11, 16, 23, 4, 11, 16, 23,
            6, 10, 15, 21, 6, 10, 15, 21, 6, 10, 15, 21, 6, 10, 15, 21]"

definition rotl32 :: "w32 \<Rightarrow> nat \<Rightarrow> w32" where
  "rotl32 x n = (push_bit n x) OR (drop_bit (32 - n) x)"

definition md5_step :: "w32 list \<Rightarrow> nat \<Rightarrow> w32 \<times> w32 \<times> w32 \<times> w32 \<Rightarrow> w32 \<times> w32 \<times> w32 \<times> w32" where
  "md5_step m i st = (case st of (a, b, c, d) \<Rightarrow>
     let (f, g) =
        (if i < 16 then ((b AND c) OR (NOT b AND d), i)
         else if i < 32 then ((d AND b) OR (NOT d AND c), (5 * i + 1) mod 16)
         else if i < 48 then (b XOR c XOR d, (3 * i + 5) mod 16)
         else (c XOR (b OR NOT d), (7 * i) mod 16));
         f' = f + a + md5_K ! i + m ! g
     in (d, b + rotl32 f' (md5_S ! i), b, c))"

definition md5_block :: "w32 \<times> w32 \<times> w32 \<times> w32 \<Rightarrow> w32 list \<Rightarrow> w32 \<times> w32 \<times> w32 \<times> w32" where
  "md5_block st m = (case st of (a0, b0, c0, d0) \<Rightarrow>
     case fold (md5_step m) [0..<64] st of (a, b, c, d) \<Rightarrow> (a0 + a, b0 + b, c0 + c, d0 + d))"

definition le_bytes :: "nat \<Rightarrow> int \<Rightarrow> int list" where
  "le_bytes n x = map (\<lambda>i. (x div 256 ^ i) mod 256) [0..<n]"

definition md5_pad :: "int list \<Rightarrow> int list" where
  "md5_pad bs = bs @ [128] @ replicate ((119 - length bs mod 64) mod 64) 0
                   @ le_bytes 8 (8 * int (length bs))"

fun md5_words :: "int list \<Rightarrow> w32 list" where
  "md5_words (b0 # b1 # b2 # b3 # bs) =
     word_of_int (b0 + 256 * b1 + 65536 * b2 + 16777216 * b3) # md5_words bs"
| "md5_words bs = []"

fun md5_blocks :: "nat \<Rightarrow> w32 list \<Rightarrow> w32 list list" where
  "md5_blocks 0 ws = []"
| "md5_blocks (Suc n) ws = take 16 ws # md5_blocks n (drop 16 ws)"

definition hex_digit :: "int \<Rightarrow> char" where
  "hex_digit n = ''0123456789abcdef'' ! nat n"

definition hex_byte :: "int \<Rightarrow> string" where
  "hex_byte b = [hex_digit (b div 16), hex_digit (b mod 16)]"

definition hex_word :: "w32 \<Rightarrow> string" where
  "hex_word w = concat (map hex_byte (le_bytes 4 (uint w)))"

definition Md5_hashStr :: "string \<Rightarrow> string" where
  "Md5_hashStr s =
     (let ws = md5_words (md5_pad (map of_char s));
          st = fold (\<lambda>blk st. md5_block st blk) (md5_blocks (length ws div 16) ws)
                 (0x67452301, 0xefcdab89, 0x98badcfe, 0x10325476)
      in case st of (a, b, c, d) \<Rightarrow> hex_word a @ hex_word b @ hex_word c @ hex_word d)"

section \<open>The request fingerprint\<close>

text \<open>
  The cache key of a request, as each of the four resolve methods builds it:
  \<^verbatim>\<open>`${flagKey}--${Md5.hashStr(JSON.stringify(req.context))}`\<close>.
\<close>

record request =
  flagKey :: string
  "context" :: Struct

definition reqHash :: "string \<Rightarrow> EvaluationContext \<Rightarrow> string" where
  "reqHash k transformedContext =
     (let req = \<lparr>flagKey = k, context = Struct_fromJsonString transformedContext\<rparr>
      in flagKey req @ ''--'' @ Md5_hashStr (JSON_stringify (JObj (context req))))"

section \<open>Constants, resolution results and transport errors\<close>

definition ERROR_DISABLED :: string where
  "ERROR_DISABLED = ''DISABLED''"

definition EVENT_CONFIGURATION_CHANGE :: string where
  "EVENT_CONFIGURATION_CHANGE = ''configuration_change''"

definition EVENT_PROVIDER_READY :: string where
  "EVENT_PROVIDER_READY = ''provider_ready''"

definition ERROR_CONNECTION_ERROR :: string where
  "ERROR_CONNECTION_ERROR = ''CONNECTION_ERROR''"

text \<open>
  \<^verbatim>\<open>ErrorCode\<close> and \<^verbatim>\<open>StandardResolutionReasons\<close> of the OpenFeature SDK are string
  enumerations; the value of each member the provider uses is the member's name.
\<close>

definition ErrorCode_PROVIDER_NOT_READY :: string where
  "ErrorCode_PROVIDER_NOT_READY = ''PROVIDER_NOT_READY''"

definition ErrorCode_FLAG_NOT_FOUND :: string where
  "ErrorCode_FLAG_NOT_FOUND = ''FLAG_NOT_FOUND''"

definition ErrorCode_TYPE_MISMATCH :: string where
  "ErrorCode_TYPE_MISMATCH = ''TYPE_MISMATCH''"

definition ErrorCode_PARSE_ERROR :: string where
  "ErrorCode_PARSE_ERROR = ''PARSE_ERROR''"

definition ErrorCode_GENERAL :: string where
  "ErrorCode_GENERAL = ''GENERAL''"

definition StandardResolutionReasons_ERROR :: string where
  "StandardResolutionReasons_ERROR = ''ERROR''"

text \<open>
  A resolution result. The gate and the failure path build it without a variant, the
  success path without an error code. The value is a JSON value for all four kinds: the
  cache is shared by the four methods, and a hit is returned as it was stored.
\<close>

record ResolutionDetails =
  "value" :: JsonValue
  reason :: string
  variant :: "string option"
  errorCode :: "string option"

text \<open>The status codes of the connect protocol, and the error a failed call rejects with.\<close>

datatype Code = Canceled | Unknown | InvalidArgument | DeadlineExceeded | NotFound
  | AlreadyExists | PermissionDenied | ResourceExhausted | FailedPrecondition | Aborted
  | OutOfRange | Unimplemented | Internal | Unavailable | DataLoss | Unauthenticated

record ConnectError =
  code :: "Code option"

definition ErrorResponse :: "ConnectError \<Rightarrow> string" where
  "ErrorResponse err =
     (case code err of
        Some NotFound \<Rightarrow> ErrorCode_FLAG_NOT_FOUND
      | Some InvalidArgument \<Rightarrow> ErrorCode_TYPE_MISMATCH
      | Some Unavailable \<Rightarrow> ERROR_DISABLED
      | Some DataLoss \<Rightarrow> ErrorCode_PARSE_ERROR
      | _ \<Rightarrow> ErrorCode_GENERAL)"

text \<open>
  The promise client: one remote operation per value kind. A call either rejects with a
  ConnectError or resolves with a response; only the object response may lack its value.
\<close>

record 'a response =
  res_value :: 'a
  res_reason :: string
  res_variant :: string

record PromiseClient =
  resolveBoolean :: "request \<Rightarrow> ConnectError + bool response"
  resolveString :: "request \<Rightarrow> ConnectError + string response"
  resolveFloat :: "request \<Rightarrow> ConnectError + safe_integer response"
  resolveObject :: "request \<Rightarrow> ConnectError + Struct option response"

text \<open>The remote invocations a resolution call makes, in order (a test double's call log).\<close>

datatype rpc =
    ResolveBoolean request
  | ResolveString request
  | ResolveFloat request
  | ResolveObject request

section \<open>The node-cache store\<close>

text \<open>
  The provider keeps its entries in a \<^verbatim>\<open>NodeCache\<close>. The store maps a key to the stored
  value and its expiry time in milliseconds (0 for none), in insertion order, and keeps
  running totals of the estimated key and value sizes, which \<^verbatim>\<open>getStats\<close> reports as
  \<^verbatim>\<open>ksize\<close> and \<^verbatim>\<open>vsize\<close>. Time is explicit: every operation that reads the clock takes
  the current time \<open>now\<close>. The only listener the provider registers is the one for the
  \<^verbatim>\<open>set\<close> event; it is represented by its threshold.
\<close>

record Wrapped =
  expires :: int
  stored :: ResolutionDetails

record NodeCache =
  entries :: "(string \<times> Wrapped) list"
  ksize :: int
  vsize :: int
  stdTTL :: int
  listener :: "int option"

definition NodeCache_new :: "int \<Rightarrow> NodeCache" where
  "NodeCache_new ttl = \<lparr>entries = [], ksize = 0, vsize = 0, stdTTL = ttl, listener = None\<rparr>"

text \<open>
  The size estimates: the length of a key, and 80 for each property of a stored object.
  The length of a JavaScript string counts UTF-16 code units: one for each character of
  the UTF-8 text, and one more for each character of four bytes.
\<close>

definition utf16_length :: "string \<Rightarrow> nat" where
  "utf16_length s =
     length (filter (\<lambda>c. \<not> (128 \<le> (of_char c :: nat) \<and> (of_char c :: nat) < 192)) s)
       + length (filter (\<lambda>c. 240 \<le> (of_char c :: nat)) s)"

definition getKeyLength :: "string \<Rightarrow> int" where
  "getKeyLength k = int (utf16_length k)"

definition getValLength :: "ResolutionDetails \<Rightarrow> int" where
  "getValLength d =
     80 * (2 + (if variant d = None then 0 else 1) + (if errorCode d = None then 0 else 1))"

definition NodeCache_flushAll :: "NodeCache \<Rightarrow> NodeCache" where
  "NodeCache_flushAll c = c\<lparr>entries := [], ksize := 0, vsize := 0\<rparr>"

definition NodeCache_keys :: "NodeCache \<Rightarrow> string list" where
  "NodeCache_keys c = map fst (entries c)"

definition NodeCache_del :: "string \<Rightarrow> NodeCache \<Rightarrow> NodeCache" where
  "NodeCache_del key c =
     (case map_of (entries c) key of
        None \<Rightarrow> c
      | Some w \<Rightarrow> c\<lparr>entries := filter (\<lambda>kw. fst kw \<noteq> key) (entries c),
                     vsize := vsize c - getValLength (stored w),
                     ksize := ksize c - getKeyLength key\<rparr>)"

text \<open>A read of an expired entry deletes it and reports a miss.\<close>

definition NodeCache_get :: "NodeCache \<Rightarrow> string \<Rightarrow> int \<Rightarrow> ResolutionDetails option \<times> NodeCache" where
  "NodeCache_get c key now =
     (case map_of (entries c) key of
        None \<Rightarrow> (None, c)
      | Some w \<Rightarrow>
          if expires w \<noteq> 0 \<and> expires w < now then (None, NodeCache_del key c)
          else (Some (stored w), c))"

text \<open>
  The listener of the constructor (lines 60 to 66):
  \<^verbatim>\<open>if (s.ksize + s.vsize > cacheMaxBytes) this.cache.flushAll()\<close>.
\<close>

definition on_set :: "int \<Rightarrow> NodeCache \<Rightarrow> NodeCache" where
  "on_set cacheMaxBytes c =
     (if ksize c + vsize c > cacheMaxBytes then NodeCache_flushAll c else c)"

text \<open>The store proper of \<^verbatim>\<open>set\<close>: the entry is written and the totals are adjusted.\<close>

definition NodeCache_store :: "NodeCache \<Rightarrow> string \<Rightarrow> ResolutionDetails \<Rightarrow> int \<Rightarrow> NodeCache" where
  "NodeCache_store c key val now =
     (let existent = map_of (entries c) key;
          vs = (case existent of None \<Rightarrow> vsize c | Some w \<Rightarrow> vsize c - getValLength (stored w));
          w = \<lparr>expires = (if stdTTL c = 0 then 0 else now + stdTTL c * 1000), stored = val\<rparr>
      in c\<lparr>entries := AList.update key w (entries c),
            vsize := vs + getValLength val,
            ksize := (if existent = None then ksize c + getKeyLength key else ksize c)\<rparr>)"

text \<open>\<^verbatim>\<open>set\<close> stores the entry and then emits the \<^verbatim>\<open>set\<close> event to the listener.\<close>

definition NodeCache_set :: "NodeCache \<Rightarrow> string \<Rightarrow> ResolutionDetails \<Rightarrow> int \<Rightarrow> NodeCache" where
  "NodeCache_set c key val now =
     (let c' = NodeCache_store c key val now
      in case listener c' of None \<Rightarrow> c' | Some cacheMaxBytes \<Rightarrow> on_set cacheMaxBytes c')"

text \<open>The aggregate estimate over the entries that are in the store.\<close>

definition aggregate_size :: "NodeCache \<Rightarrow> int" where
  "aggregate_size c = (\<Sum>kw\<leftarrow>entries c. getKeyLength (fst kw) + getValLength (stored (snd kw)))"

definition stats_ok :: "NodeCache \<Rightarrow> bool" where
  "stats_ok c = (distinct (map fst (entries c)) \<and>
     ksize c = (\<Sum>kw\<leftarrow>entries c. getKeyLength (fst kw)) \<and>
     vsize c = (\<Sum>kw\<leftarrow>entries c. getValLength (stored (snd kw))))"

section \<open>The provider\<close>

record FlagdWebProvider =
  cache :: NodeCache
  cacheActive :: bool
  providerReady :: bool
  connectionError :: bool

text \<open>
  The constructor, for the options \<^verbatim>\<open>cache\<close>, \<^verbatim>\<open>cacheTTL\<close> and \<^verbatim>\<open>cacheMaxBytes\<close> (host,
  port and tls only select the transport). It goes on to call \<^verbatim>\<open>initStream(0, maxRetries)\<close>.
\<close>

definition FlagdWebProvider_new :: "bool \<Rightarrow> int \<Rightarrow> int \<Rightarrow> FlagdWebProvider" where
  "FlagdWebProvider_new cache_option cacheTTL cacheMaxBytes =
     \<lparr>cache = (let c = NodeCache_new cacheTTL
               in if cacheMaxBytes \<noteq> 0 then c\<lparr>listener := Some cacheMaxBytes\<rparr> else c),
      cacheActive = cache_option,
      providerReady = False,
      connectionError = False\<rparr>"

subsection \<open>The event stream\<close>

text \<open>A stream message: its type and its optional payload, a protobuf Struct.\<close>

record message =
  type :: string
  data :: "Struct option"

text \<open>
  \<^verbatim>\<open>keys[i].split("--")[0]\<close>: the text of a key before the first occurrence of the
  separator, the whole key if there is none.
\<close>

fun split_head :: "string \<Rightarrow> string" where
  "split_head (c1 # c2 # cs) =
     (if c1 = CHR ''-'' \<and> c2 = CHR ''-'' then [] else c1 # split_head (c2 # cs))"
| "split_head cs = cs"

text \<open>Whether a text contains the separator.\<close>

fun has_separator :: "string \<Rightarrow> bool" where
  "has_separator (c1 # c2 # cs) =
     ((c1 = CHR ''-'' \<and> c2 = CHR ''-'') \<or> has_separator (c2 # cs))"
| "has_separator cs = False"

text \<open>
  The loop of the configuration-change branch (lines 92 to 98). The body is the payload
  parsed back from its JSON text; \<^verbatim>\<open>body.flagKey === prefix\<close> holds when the field is
  there and is that string.
\<close>

definition bust :: "Struct \<Rightarrow> string \<Rightarrow> NodeCache \<Rightarrow> NodeCache" where
  "bust body key c =
     (let prefix = split_head key
      in if map_of body ''flagKey'' = Some (JStr prefix) then NodeCache_del key c else c)"

text \<open>The flag key of a body, when the body has one and it is a string.\<close>

definition string_flagKey :: "Struct \<Rightarrow> string option" where
  "string_flagKey body =
     (case map_of body ''flagKey'' of Some (JStr A) \<Rightarrow> Some A | _ \<Rightarrow> None)"

text \<open>The message callback of \<^verbatim>\<open>initStream\<close> (lines 76 to 103).\<close>

definition onMessage :: "message \<Rightarrow> FlagdWebProvider \<Rightarrow> FlagdWebProvider" where
  "onMessage m p =
     (if type m = EVENT_PROVIDER_READY then p\<lparr>providerReady := True\<rparr>
      else if type m = EVENT_CONFIGURATION_CHANGE then
        (case data m of
           None \<Rightarrow> p\<lparr>cache := NodeCache_flushAll (cache p)\<rparr>
         | Some body \<Rightarrow> p\<lparr>cache := fold (bust body) (NodeCache_keys (cache p)) (cache p)\<rparr>)
      else p)"

text \<open>
  The close callback of \<^verbatim>\<open>initStream(i, maxRetries)\<close> (lines 104 to 114), called when
  the stream ends, with or without an error. \<open>r\<close> is the value \<^verbatim>\<open>Math.random()\<close> returns.
  The callback either waits for the delay and opens the next stream, or gives up.
\<close>

datatype closed = Retry real | GaveUp FlagdWebProvider

definition onClose :: "int \<Rightarrow> int \<Rightarrow> real \<Rightarrow> FlagdWebProvider \<Rightarrow> closed" where
  "onClose i maxRetries r p =
     (if i \<noteq> maxRetries then Retry (real_of_int (i + 1) * r * 300)
      else GaveUp (p\<lparr>connectionError := True\<rparr>))"

text \<open>
  \<^verbatim>\<open>initStream\<close> when every stream ends: attempt \<open>i\<close> delivers the messages \<open>msgs i\<close>
  and then closes, and \<open>rnd i\<close> is the random number drawn after it. The function
  returns the provider at the moment the connection is given up, and the trace of the
  streams opened and the delays waited; it returns nothing if that moment never comes.
\<close>

datatype stream_event = Opened int | Waited real

partial_function (option) initStream ::
  "(int \<Rightarrow> message list) \<Rightarrow> (int \<Rightarrow> real) \<Rightarrow> int \<Rightarrow> int \<Rightarrow> FlagdWebProvider
     \<Rightarrow> stream_event list \<Rightarrow> (FlagdWebProvider \<times> stream_event list) option" where
  "initStream msgs rnd i maxRetries p tr =
     (let p1 = fold onMessage (msgs i) p
      in case onClose i maxRetries (rnd i) p1 of
           Retry delay \<Rightarrow> initStream msgs rnd (i + 1) maxRetries p1 (tr @ [Opened i, Waited delay])
         | GaveUp p2 \<Rightarrow> Some (p2, tr @ [Opened i]))"

subsection \<open>Resolution\<close>

text \<open>
  The first cache read of the resolve methods,
  \<^verbatim>\<open>this.cacheActive && this.cache.get(reqHash) != undefined\<close>, at the time \<open>now\<close>. The
  store is read only when caching is active.
\<close>

definition cached :: "FlagdWebProvider \<Rightarrow> string \<Rightarrow> int \<Rightarrow> ResolutionDetails option \<times> FlagdWebProvider" where
  "cached p key now =
     (if cacheActive p
      then (case NodeCache_get (cache p) key now of (hit, c) \<Rightarrow> (hit, p\<lparr>cache := c\<rparr>))
      else (None, p))"

text \<open>\<^verbatim>\<open>if (this.cacheActive) { this.cache.set(reqHash, resDetails) }\<close>\<close>

definition remember :: "FlagdWebProvider \<Rightarrow> string \<Rightarrow> ResolutionDetails \<Rightarrow> int \<Rightarrow> FlagdWebProvider" where
  "remember p key resDetails now =
     (if cacheActive p then p\<lparr>cache := NodeCache_set (cache p) key resDetails now\<rparr> else p)"

text \<open>
  Each resolve method returns what its promise resolves with, the provider after the
  call, and the remote calls it made. A call reads the clock at most twice: at \<open>now\<close>
  for the first cache read, and at \<open>later\<close> either for the second cache read, with which
  a hit fetches the entry it returns (\<^verbatim>\<open>Promise.resolve(this.cache.get(reqHash))\<close>), or
  for the store after the remote call. The second read is one more \<^verbatim>\<open>get\<close>: if the
  entry has expired since the first read, it deletes the entry and the promise resolves
  with \<^verbatim>\<open>undefined\<close>, which is the result \<open>None\<close>.
\<close>

definition resolveBooleanEvaluation ::
  "PromiseClient \<Rightarrow> int \<Rightarrow> int \<Rightarrow> FlagdWebProvider \<Rightarrow> string \<Rightarrow> bool \<Rightarrow> EvaluationContext
     \<Rightarrow> ResolutionDetails option \<times> FlagdWebProvider \<times> rpc list" where
  "resolveBooleanEvaluation client now later p k defaultValue transformedContext =
     (if \<not> providerReady p then
        (Some \<lparr>value = JBool defaultValue, reason = StandardResolutionReasons_ERROR, variant = None,
               errorCode = Some (if connectionError p then ERROR_CONNECTION_ERROR
                                 else ErrorCode_PROVIDER_NOT_READY)\<rparr>, p, [])
      else
        let req = \<lparr>flagKey = k, context = Struct_fromJsonString transformedContext\<rparr>;
            h = reqHash k transformedContext
        in case cached p h now of
             (Some hit, p1) \<Rightarrow>
               (case NodeCache_get (cache p1) h later of
                  (again, c2) \<Rightarrow> (again, p1\<lparr>cache := c2\<rparr>, []))
           | (None, p1) \<Rightarrow>
               (case resolveBoolean client req of
                  Inr res \<Rightarrow>
                    let resDetails = \<lparr>value = JBool (res_value res), reason = res_reason res,
                                      variant = Some (res_variant res), errorCode = None\<rparr>
                    in (Some resDetails, remember p1 h resDetails later, [ResolveBoolean req])
                | Inl err \<Rightarrow>
                    (Some \<lparr>value = JBool defaultValue, reason = StandardResolutionReasons_ERROR,
                           variant = None, errorCode = Some (ErrorResponse err)\<rparr>,
                     p1, [ResolveBoolean req])))"

definition resolveStringEvaluation ::
  "PromiseClient \<Rightarrow> int \<Rightarrow> int \<Rightarrow> FlagdWebProvider \<Rightarrow> string \<Rightarrow> string \<Rightarrow> EvaluationContext
     \<Rightarrow> ResolutionDetails option \<times> FlagdWebProvider \<times> rpc list" where
  "resolveStringEvaluation client now later p k defaultValue transformedContext =
     (if \<not> providerReady p then
        (Some \<lparr>value = JStr defaultValue, reason = StandardResolutionReasons_ERROR, variant = None,
               errorCode = Some (if connectionError p then ERROR_CONNECTION_ERROR
                                 else ErrorCode_PROVIDER_NOT_READY)\<rparr>, p, [])
      else
        let req = \<lparr>flagKey = k, context = Struct_fromJsonString transformedContext\<rparr>;
            h = reqHash k transformedContext
        in case cached p h now of
             (Some hit, p1) \<Rightarrow>
               (case NodeCache_get (cache p1) h later of
                  (again, c2) \<Rightarrow> (again, p1\<lparr>cache := c2\<rparr>, []))
           | (None, p1) \<Rightarrow>
               (case resolveString client req of
                  Inr res \<Rightarrow>
                    let resDetails = \<lparr>value = JStr (res_value res), reason = res_reason res,
                                      variant = Some (res_variant res), errorCode = None\<rparr>
                    in (Some resDetails, remember p1 h resDetails later, [ResolveString req])
                | Inl err \<Rightarrow>
                    (Some \<lparr>value = JStr defaultValue, reason = StandardResolutionReasons_ERROR,
                           variant = None, errorCode = Some (ErrorResponse err)\<rparr>,
                     p1, [ResolveString req])))"

definition resolveNumberEvaluation ::
  "PromiseClient \<Rightarrow> int \<Rightarrow> int \<Rightarrow> FlagdWebProvider \<Rightarrow> string \<Rightarrow> safe_integer \<Rightarrow> EvaluationContext
     \<Rightarrow> ResolutionDetails option \<times> FlagdWebProvider \<times> rpc list" where
  "resolveNumberEvaluation client now later p k defaultValue transformedContext =
     (if \<not> providerReady p then
        (Some \<lparr>value = JNum defaultValue, reason = StandardResolutionReasons_ERROR, variant = None,
               errorCode = Some (if connectionError p then ERROR_CONNECTION_ERROR
                                 else ErrorCode_PROVIDER_NOT_READY)\<rparr>, p, [])
      else
        let req = \<lparr>flagKey = k, context = Struct_fromJsonString transformedContext\<rparr>;
            h = reqHash k transformedContext
        in case cached p h now of
             (Some hit, p1) \<Rightarrow>
               (case NodeCache_get (cache p1) h later of
                  (again, c2) \<Rightarrow> (again, p1\<lparr>cache := c2\<rparr>, []))
           | (None, p1) \<Rightarrow>
               (case resolveFloat client req of
                  Inr res \<Rightarrow>
                    let resDetails = \<lparr>value = JNum (res_value res), reason = res_reason res,
                                      variant = Some (res_variant res), errorCode = None\<rparr>
                    in (Some resDetails, remember p1 h resDetails later, [ResolveFloat req])
                | Inl err \<Rightarrow>
                    (Some \<lparr>value = JNum defaultValue, reason = StandardResolutionReasons_ERROR,
                           variant = None, errorCode = Some (ErrorResponse err)\<rparr>,
                     p1, [ResolveFloat req])))"

text \<open>
  The object method has one more branch: a response without a value yields the default
  value with the reason and variant of the response, and is not stored.
\<close>

definition resolveObjectEvaluation ::
  "PromiseClient \<Rightarrow> int \<Rightarrow> int \<Rightarrow> FlagdWebProvider \<Rightarrow> string \<Rightarrow> JsonValue \<Rightarrow> EvaluationContext
     \<Rightarrow> ResolutionDetails option \<times> FlagdWebProvider \<times> rpc list" where
  "resolveObjectEvaluation client now later p k defaultValue transformedContext =
     (if \<not> providerReady p then
        (Some \<lparr>value = defaultValue, reason = StandardResolutionReasons_ERROR, variant = None,
               errorCode = Some (if connectionError p then ERROR_CONNECTION_ERROR
                                 else ErrorCode_PROVIDER_NOT_READY)\<rparr>, p, [])
      else
        let req = \<lparr>flagKey = k, context = Struct_fromJsonString transformedContext\<rparr>;
            h = reqHash k transformedContext
        in case cached p h now of
             (Some hit, p1) \<Rightarrow>
               (case NodeCache_get (cache p1) h later of
                  (again, c2) \<Rightarrow> (again, p1\<lparr>cache := c2\<rparr>, []))
           | (None, p1) \<Rightarrow>
               (case resolveObject client req of
                  Inr res \<Rightarrow>
                    (case res_value res of
                       Some payload \<Rightarrow>
                         let resDetails = \<lparr>value = JObj payload, reason = res_reason res,
                                           variant = Some (res_variant res), errorCode = None\<rparr>
                         in (Some resDetails, remember p1 h resDetails later, [ResolveObject req])
                     | None \<Rightarrow>
                         (Some \<lparr>value = defaultValue, reason = res_reason res,
                                variant = Some (res_variant res), errorCode = None\<rparr>,
                          p1, [ResolveObject req]))
                | Inl err \<Rightarrow>
                    (Some \<lparr>value = defaultValue, reason = StandardResolutionReasons_ERROR,
                           variant = None, errorCode = Some (ErrorResponse err)\<rparr>,
                     p1, [ResolveObject req])))"

text \<open>A resolution call of any of the four kinds, with its flag key, default and context.\<close>

datatype evaluation =
    BooleanEvaluation string bool EvaluationContext
  | StringEvaluation string string EvaluationContext
  | NumberEvaluation string safe_integer EvaluationContext
  | ObjectEvaluation string JsonValue EvaluationContext

fun resolve ::
  "PromiseClient \<Rightarrow> int \<Rightarrow> int \<Rightarrow> FlagdWebProvider \<Rightarrow> evaluation
     \<Rightarrow> ResolutionDetails option \<times> FlagdWebProvider \<times> rpc list" where
  "resolve client now later p (BooleanEvaluation k d c) =
     resolveBooleanEvaluation client now later p k d c"
| "resolve client now later p (StringEvaluation k d c) =
     resolveStringEvaluation client now later p k d c"
| "resolve client now later p (NumberEvaluation k d c) =
     resolveNumberEvaluation client now later p k d c"
| "resolve client now later p (ObjectEvaluation k d c) =
     resolveObjectEvaluation client now later p k d c"

fun default_of :: "evaluation \<Rightarrow> JsonValue" where
  "default_of (BooleanEvaluation k d c) = JBool d"
| "default_of (StringEvaluation k d c) = JStr d"
| "default_of (NumberEvaluation k d c) = JNum d"
| "default_of (ObjectEvaluation k d c) = d"

fun key_of :: "evaluation \<Rightarrow> string" where
  "key_of (BooleanEvaluation k d c) = reqHash k c"
| "key_of (StringEvaluation k d c) = reqHash k c"
| "key_of (NumberEvaluation k d c) = reqHash k c"
| "key_of (ObjectEvaluation k d c) = reqHash k c"

text \<open>The error, if any, with which the remote operation of a resolution call rejects.\<close>

fun remote_error :: "PromiseClient \<Rightarrow> evaluation \<Rightarrow> ConnectError option" where
  "remote_error client (BooleanEvaluation k d c) =
     (case resolveBoolean client \<lparr>flagKey = k, context = Struct_fromJsonString c\<rparr> of
        Inl err \<Rightarrow> Some err | Inr res \<Rightarrow> None)"
| "remote_error client (StringEvaluation k d c) =
     (case resolveString client \<lparr>flagKey = k, context = Struct_fromJsonString c\<rparr> of
        Inl err \<Rightarrow> Some err | Inr res \<Rightarrow> None)"
| "remote_error client (NumberEvaluation k d c) =
     (case resolveFloat client \<lparr>flagKey = k, context = Struct_fromJsonString c\<rparr> of
        Inl err \<Rightarrow> Some err | Inr res \<Rightarrow> None)"
| "remote_error client (ObjectEvaluation k d c) =
     (case resolveObject client \<lparr>flagKey = k, context = Struct_fromJsonString c\<rparr> of
        Inl err \<Rightarrow> Some err | Inr res \<Rightarrow> None)"

text \<open>The remote call that a resolution call makes when it goes to the remote service.\<close>

fun rpc_of :: "evaluation \<Rightarrow> rpc" where
  "rpc_of (BooleanEvaluation k d c) =
     ResolveBoolean \<lparr>flagKey = k, context = Struct_fromJsonString c\<rparr>"
| "rpc_of (StringEvaluation k d c) =
     ResolveString \<lparr>flagKey = k, context = Struct_fromJsonString c\<rparr>"
| "rpc_of (NumberEvaluation k d c) =
     ResolveFloat \<lparr>flagKey = k, context = Struct_fromJsonString c\<rparr>"
| "rpc_of (ObjectEvaluation k d c) =
     ResolveObject \<lparr>flagKey = k, context = Struct_fromJsonString c\<rparr>"

text \<open>
  The value, reason and variant with which the remote operation of a resolution call
  answers, if it answers with a value.
\<close>

fun remote_details :: "PromiseClient \<Rightarrow> evaluation \<Rightarrow> ResolutionDetails option" where
  "remote_details client (BooleanEvaluation k d c) =
     (case resolveBoolean client \<lparr>flagKey = k, context = Struct_fromJsonString c\<rparr> of
        Inl err \<Rightarrow> None
      | Inr res \<Rightarrow> Some \<lparr>value = JBool (res_value res), reason = res_reason res,
                           variant = Some (res_variant res), errorCode = None\<rparr>)"
| "remote_details client (StringEvaluation k d c) =
     (case resolveString client \<lparr>flagKey = k, context = Struct_fromJsonString c\<rparr> of
        Inl err \<Rightarrow> None
      | Inr res \<Rightarrow> Some \<lparr>value = JStr (res_value res), reason = res_reason res,
                           variant = Some (res_variant res), errorCode = None\<rparr>)"
| "remote_details client (NumberEvaluation k d c) =
     (case resolveFloat client \<lparr>flagKey = k, context = Struct_fromJsonString c\<rparr> of
        Inl err \<Rightarrow> None
      | Inr res \<Rightarrow> Some \<lparr>value = JNum (res_value res), reason = res_reason res,
                           variant = Some (res_variant res), errorCode = None\<rparr>)"
| "remote_details client (ObjectEvaluation k d c) =
     (case resolveObject client \<lparr>flagKey = k, context = Struct_fromJsonString c\<rparr> of
        Inl err \<Rightarrow> None
      | Inr res \<Rightarrow>
          (case res_value res of
             None \<Rightarrow> None
           | Some payload \<Rightarrow> Some \<lparr>value = JObj payload, reason = res_reason res,
                                     variant = Some (res_variant res), errorCode = None\<rparr>))"

text \<open>
  The operations that act on a provider once it is constructed: a message of the stream,
  the end of the stream opened by \<^verbatim>\<open>initStream(i, maxRetries)\<close>, and a resolution call.
\<close>

datatype operation =
    Message message
  | StreamClosed int int real
  | Resolution PromiseClient int int evaluation

fun step :: "operation \<Rightarrow> FlagdWebProvider \<Rightarrow> FlagdWebProvider" where
  "step (Message m) p = onMessage m p"
| "step (StreamClosed i maxRetries r) p =
     (case onClose i maxRetries r p of Retry delay \<Rightarrow> p | GaveUp p' \<Rightarrow> p')"
| "step (Resolution client now later e) p = fst (snd (resolve client now later p e))"

subsection \<open>Test doubles and sample states\<close>

text \<open>A remote service that is unavailable, and one that serves a fixed flag.\<close>

definition unavailable_client :: PromiseClient where
  "unavailable_client =
     \<lparr>resolveBoolean = (\<lambda>req. Inl \<lparr>code = Some Unavailable\<rparr>),
      resolveString = (\<lambda>req. Inl \<lparr>code = Some Unavailable\<rparr>),
      resolveFloat = (\<lambda>req. Inl \<lparr>code = Some Unavailable\<rparr>),
      resolveObject = (\<lambda>req. Inl \<lparr>code = Some Unavailable\<rparr>)\<rparr>"

definition static_client :: PromiseClient where
  "static_client =
     \<lparr>resolveBoolean = (\<lambda>req. Inr \<lparr>res_value = True, res_reason = ''STATIC'', res_variant = ''on''\<rparr>),
      resolveString = (\<lambda>req. Inr \<lparr>res_value = ''red'', res_reason = ''STATIC'', res_variant = ''on''\<rparr>),
      resolveFloat = (\<lambda>req. Inr \<lparr>res_value = 7, res_reason = ''STATIC'', res_variant = ''on''\<rparr>),
      resolveObject = (\<lambda>req. Inr \<lparr>res_value = None, res_reason = ''STATIC'', res_variant = ''on''\<rparr>)\<rparr>"

definition sample_details :: ResolutionDetails where
  "sample_details =
     \<lparr>value = JBool True, reason = ''STATIC'', variant = Some ''on'', errorCode = None\<rparr>"

definition provider_ready_message :: message where
  "provider_ready_message = \<lparr>type = EVENT_PROVIDER_READY, data = None\<rparr>"

text \<open>A provider with caching on, no expiry and no size limit, after \<^verbatim>\<open>provider_ready\<close>.\<close>

definition ready_provider :: FlagdWebProvider where
  "ready_provider = onMessage provider_ready_message (FlagdWebProvider_new True 0 0)"

text \<open>The same provider with one cached entry for each of two flags.\<close>

definition warm_provider :: FlagdWebProvider where
  "warm_provider =
     remember (remember ready_provider (reqHash ''flag-a'' []) sample_details 0)
       (reqHash ''flag-b'' []) sample_details 0"

text \<open>
  A provider with a cached entry for the flag \<open>a-\<close> and one for the flag \<open>a\<close>.
\<close>

definition hyphen_provider :: FlagdWebProvider where
  "hyphen_provider =
     remember (remember ready_provider (reqHash ''a-'' []) sample_details 0)
       (reqHash ''a'' []) sample_details 0"

text \<open>A provider with caching on and entries that expire after 60 seconds, made ready.\<close>

definition expiring_provider :: FlagdWebProvider where
  "expiring_provider = onMessage provider_ready_message (FlagdWebProvider_new True 60 0)"

text \<open>A configuration change for one flag, and one whose payload lacks the flag key.\<close>

definition change_message :: "string \<Rightarrow> message" where
  "change_message k =
     \<lparr>type = EVENT_CONFIGURATION_CHANGE,
      data = Some [(''type'', JStr ''write''), (''source'', JStr ''flags.json''),
                   (''flagKey'', JStr k)]\<rparr>"

definition malformed_message :: message where
  "malformed_message =
     \<lparr>type = EVENT_CONFIGURATION_CHANGE, data = Some [(''type'', JStr ''write'')]\<rparr>"

subsection \<open>Reading a trace of the retry loop\<close>

fun is_attempt :: "stream_event \<Rightarrow> bool" where
  "is_attempt (Opened i) = True"
| "is_attempt (Waited d) = False"

definition attempts :: "stream_event list \<Rightarrow> nat" where
  "attempts tr = length (filter is_attempt tr)"

text \<open>
  The trace from attempt \<open>i\<close> on when every stream ends: each attempt \<open>j\<close> before the
  last is followed by the wait of \<^verbatim>\<open>(j + 1) * Math.random() * 300\<close> milliseconds.
\<close>

definition retry_trace :: "(int \<Rightarrow> real) \<Rightarrow> int \<Rightarrow> int \<Rightarrow> stream_event list" where
  "retry_trace rnd i maxRetries =
     concat (map (\<lambda>j. [Opened j, Waited (real_of_int (j + 1) * rnd j * 300)]) [i..maxRetries - 1])
       @ [Opened maxRetries]"

subsection \<open>Invariants of the store\<close>

text \<open>
  The store of a provider constructed with \<^verbatim>\<open>cacheMaxBytes = N\<close>: the totals agree with
  the entries, and the listener is registered exactly when \<open>N\<close> is not 0.
\<close>

definition cache_inv :: "int \<Rightarrow> NodeCache \<Rightarrow> bool" where
  "cache_inv N c = (stats_ok c \<and> listener c = (if N = 0 then None else Some N))"

text \<open>
  An insertion stays when the listener, if there is one, does not flush the store after
  it: the totals after the store do not exceed the threshold.
\<close>

definition stays :: "NodeCache \<Rightarrow> string \<Rightarrow> ResolutionDetails \<Rightarrow> int \<Rightarrow> bool" where
  "stays c key d now =
     (case listener c of
        None \<Rightarrow> True
      | Some N \<Rightarrow> ksize (NodeCache_store c key d now) + vsize (NodeCache_store c key d now) \<le> N)"

section \<open>Basic facts\<close>

lemmas consts_defs = ERROR_DISABLED_def EVENT_CONFIGURATION_CHANGE_def EVENT_PROVIDER_READY_def
  ERROR_CONNECTION_ERROR_def ErrorCode_PROVIDER_NOT_READY_def ErrorCode_FLAG_NOT_FOUND_def
  ErrorCode_TYPE_MISMATCH_def ErrorCode_PARSE_ERROR_def ErrorCode_GENERAL_def
  StandardResolutionReasons_ERROR_def

lemmas resolve_defs = resolveBooleanEvaluation_def resolveStringEvaluation_def
  resolveNumberEvaluation_def resolveObjectEvaluation_def

lemma ready_provider_simps:
  "providerReady ready_provider" "cacheActive ready_provider" "\<not> connectionError ready_provider"
  "entries (cache ready_provider) = []"
  by (simp_all add: ready_provider_def onMessage_def provider_ready_message_def
      FlagdWebProvider_new_def NodeCache_new_def)

lemma ErrorResponse_table:
  "ErrorResponse err =
     (case code err of
        Some NotFound \<Rightarrow> ''FLAG_NOT_FOUND''
      | Some InvalidArgument \<Rightarrow> ''TYPE_MISMATCH''
      | Some Unavailable \<Rightarrow> ''DISABLED''
      | Some DataLoss \<Rightarrow> ''PARSE_ERROR''
      | _ \<Rightarrow> ''GENERAL'')"
  by (simp add: ErrorResponse_def consts_defs split: option.splits Code.splits)

section \<open>The readiness gate\<close>

text \<open>
  Claim C2. A resolution call of any of the four kinds on a provider that is not ready
  returns the caller's default value with the reason \<open>ERROR\<close>, makes no remote call and
  leaves the provider as it is. The error code is \<open>CONNECTION_ERROR\<close> when the
  connection has been given up (the flag that the close callback sets once the retries
  are used up), and \<open>PROVIDER_NOT_READY\<close> otherwise.
\<close>

theorem readiness_gate:
  assumes "\<not> providerReady p"
  shows "resolve client now later p e =
     (Some \<lparr>value = default_of e, reason = ''ERROR'', variant = None,
            errorCode = Some (if connectionError p then ''CONNECTION_ERROR''
                              else ''PROVIDER_NOT_READY'')\<rparr>,
      p, [])"
  using assms by (cases e) (simp_all add: resolve_defs consts_defs)

theorem readiness_gate_witness:
  "\<not> providerReady (FlagdWebProvider_new True 0 0) \<and>
   resolve static_client 0 1 (FlagdWebProvider_new True 0 0) (BooleanEvaluation ''flag-a'' False []) =
     (Some \<lparr>value = JBool False, reason = ''ERROR'', variant = None,
            errorCode = Some ''PROVIDER_NOT_READY''\<rparr>, FlagdWebProvider_new True 0 0, [])"
  using readiness_gate [of "FlagdWebProvider_new True 0 0" static_client 0 1
      "BooleanEvaluation ''flag-a'' False []"]
  by (simp add: FlagdWebProvider_new_def)

section \<open>Failure mapping\<close>

text \<open>
  Claim C3, as the source has it. A resolution call on a ready provider that misses the
  cache and whose remote operation rejects returns a result with the caller's default
  value, the reason \<open>ERROR\<close> and the code that \<^verbatim>\<open>ErrorResponse\<close> maps the failure to:
  \<open>FLAG_NOT_FOUND\<close> for not-found, \<open>TYPE_MISMATCH\<close> for invalid-argument, \<open>DISABLED\<close> for
  unavailable, \<open>PARSE_ERROR\<close> for data-loss and \<open>GENERAL\<close> for every other failure.
\<close>

theorem failure_mapping:
  assumes "providerReady p"
    and "fst (cached p (key_of e) now) = None"
    and "remote_error client e = Some err"
  shows "fst (resolve client now later p e) =
     Some \<lparr>value = default_of e, reason = ''ERROR'', variant = None,
      errorCode = Some (case code err of
          Some NotFound \<Rightarrow> ''FLAG_NOT_FOUND''
        | Some InvalidArgument \<Rightarrow> ''TYPE_MISMATCH''
        | Some Unavailable \<Rightarrow> ''DISABLED''
        | Some DataLoss \<Rightarrow> ''PARSE_ERROR''
        | _ \<Rightarrow> ''GENERAL'')\<rparr>"
  using assms
  by (cases e; cases "cached p (key_of e) now")
     (auto simp: resolve_defs consts_defs ErrorResponse_table [symmetric] split: sum.splits)

theorem failure_mapping_witness:
  "providerReady ready_provider \<and>
   fst (cached ready_provider (key_of (StringEvaluation ''flag-a'' ''blue'' [])) 0) = None \<and>
   remote_error unavailable_client (StringEvaluation ''flag-a'' ''blue'' []) =
     Some \<lparr>code = Some Unavailable\<rparr> \<and>
   fst (resolve unavailable_client 0 1 ready_provider (StringEvaluation ''flag-a'' ''blue'' [])) =
     Some \<lparr>value = JStr ''blue'', reason = ''ERROR'', variant = None,
           errorCode = Some ''DISABLED''\<rparr>"
proof -
  have 1: "providerReady ready_provider"
    by (simp add: ready_provider_simps)
  have 2: "fst (cached ready_provider (key_of (StringEvaluation ''flag-a'' ''blue'' [])) 0) = None"
    by (simp add: cached_def NodeCache_get_def ready_provider_simps)
  have 3: "remote_error unavailable_client (StringEvaluation ''flag-a'' ''blue'' []) =
      Some \<lparr>code = Some Unavailable\<rparr>"
    by (simp add: unavailable_client_def)
  show ?thesis
    using failure_mapping [OF 1 2 3] 1 2 3 by simp
qed

text \<open>
  The code for an unavailable transport is \<open>DISABLED\<close>, which is not the
  \<open>CONNECTION_ERROR\<close> of the readiness gate.
\<close>

theorem failure_mapping_counterexample:
  "remote_error unavailable_client (BooleanEvaluation ''flag-a'' False []) =
     Some \<lparr>code = Some Unavailable\<rparr> \<and>
   map_option errorCode (fst (resolve unavailable_client 0 1 ready_provider
       (BooleanEvaluation ''flag-a'' False []))) = Some (Some ''DISABLED'') \<and>
   ''DISABLED'' \<noteq> ERROR_CONNECTION_ERROR"
  by (simp add: resolve_defs consts_defs ErrorResponse_def unavailable_client_def cached_def
      NodeCache_get_def ready_provider_simps)

section \<open>Stream termination and the cache\<close>

lemma reqHash_flags_differ: "reqHash ''flag-a'' c \<noteq> reqHash ''flag-b'' c'"
  by (simp add: reqHash_def)

lemma warm_provider_entries:
  "entries (cache warm_provider) =
     [(reqHash ''flag-a'' [], \<lparr>expires = 0, stored = sample_details\<rparr>),
      (reqHash ''flag-b'' [], \<lparr>expires = 0, stored = sample_details\<rparr>)]"
  by (simp add: warm_provider_def remember_def ready_provider_simps NodeCache_set_def
      NodeCache_store_def ready_provider_def onMessage_def provider_ready_message_def
      FlagdWebProvider_new_def NodeCache_new_def Let_def reqHash_flags_differ)

text \<open>
  Claim C9, as the source has it. The close callback does not touch the cache: when a
  stream ends, whether the callback schedules a retry or gives the connection up, every
  cached entry stays where it is. All the callback changes is the connection-error flag,
  which it sets when the attempt was the last one.
\<close>

theorem stream_close_keeps_cache:
  "cache (step (StreamClosed i maxRetries r) p) = cache p \<and>
   providerReady (step (StreamClosed i maxRetries r) p) = providerReady p \<and>
   connectionError (step (StreamClosed i maxRetries r) p) =
     (connectionError p \<or> i = maxRetries)"
proof (cases "i = maxRetries")
  case True
  then show ?thesis by (simp add: onClose_def)
next
  case False
  then show ?thesis by (simp add: onClose_def)
qed

text \<open>Both entries of the sample provider survive the end of a stream, on either branch.\<close>

theorem stream_close_counterexample:
  "entries (cache (step (StreamClosed 0 0 0) warm_provider)) \<noteq> [] \<and>
   entries (cache (step (StreamClosed 0 5 0) warm_provider)) \<noteq> []"
  by (simp add: onClose_def warm_provider_entries)

section \<open>Readiness is permanent\<close>

lemma onMessage_ready: "providerReady p \<Longrightarrow> providerReady (onMessage m p)"
  by (simp add: onMessage_def split: option.splits)

lemma cached_ready: "cached p k now = (r, p') \<Longrightarrow> providerReady p' = providerReady p"
  by (auto simp: cached_def split: if_splits prod.splits)

lemma remember_ready: "providerReady (remember p k d now) = providerReady p"
  by (simp add: remember_def)

lemma resolve_ready:
  "providerReady p \<Longrightarrow> providerReady (fst (snd (resolve client now later p e)))"
  by (cases e)
     (auto simp: resolve_defs remember_ready Let_def dest: cached_ready
           split: prod.splits option.splits sum.splits)

lemma step_ready: "providerReady p \<Longrightarrow> providerReady (step op p)"
  by (cases op) (auto simp: onMessage_ready resolve_ready onClose_def)

lemma steps_ready: "providerReady p \<Longrightarrow> providerReady (fold step ops p)"
  by (induction ops arbitrary: p) (simp_all add: step_ready)

lemma get_hit_keeps: "NodeCache_get c k now = (Some d, c') \<Longrightarrow> c' = c"
  by (auto simp: NodeCache_get_def split: option.splits if_splits)

lemma resolve_passes_gate:
  assumes "providerReady p"
  shows "snd (snd (resolve client now later p e)) = [rpc_of e] \<or>
     (cacheActive p \<and>
      (\<exists>hit. fst (NodeCache_get (cache p) (key_of e) now) = Some hit) \<and>
      fst (resolve client now later p e) = fst (NodeCache_get (cache p) (key_of e) later) \<and>
      snd (snd (resolve client now later p e)) = [])"
proof (cases "cacheActive p \<and> (\<exists>hit. fst (NodeCache_get (cache p) (key_of e) now) = Some hit)")
  case True
  then obtain hit c where g: "NodeCache_get (cache p) (key_of e) now = (Some hit, c)"
    by (cases "NodeCache_get (cache p) (key_of e) now") auto
  from get_hit_keeps [OF g] g True have c: "cached p (key_of e) now = (Some hit, p)"
    by (simp add: cached_def)
  have "fst (resolve client now later p e) = fst (NodeCache_get (cache p) (key_of e) later) \<and>
      snd (snd (resolve client now later p e)) = []"
    using assms c by (cases e) (auto simp: resolve_defs Let_def split: prod.splits)
  with True show ?thesis by blast
next
  case False
  then have "fst (cached p (key_of e) now) = None"
    by (cases "NodeCache_get (cache p) (key_of e) now") (auto simp: cached_def)
  then have "snd (snd (resolve client now later p e)) = [rpc_of e]"
    using assms
    by (cases e; cases "cached p (key_of e) now")
       (auto simp: resolve_defs Let_def split: sum.splits option.splits)
  then show ?thesis by blast
qed

text \<open>
  Claim C10. After a \<^verbatim>\<open>provider_ready\<close> message the readiness flag stays set whatever
  operations follow (messages, stream terminations including the one that gives the
  connection up, resolution calls), and a resolution call issued then is not stopped by
  the gate: either it invokes the remote operation, or it has found a live entry at its
  first cache read and resolves, without a remote call, with what its second read
  returns.
\<close>

theorem readiness_permanent:
  assumes "type m = EVENT_PROVIDER_READY" and "p' = fold step ops (onMessage m p)"
  shows "providerReady p' \<and>
    (snd (snd (resolve client now later p' e)) = [rpc_of e] \<or>
     (cacheActive p' \<and>
      (\<exists>hit. fst (NodeCache_get (cache p') (key_of e) now) = Some hit) \<and>
      fst (resolve client now later p' e) = fst (NodeCache_get (cache p') (key_of e) later) \<and>
      snd (snd (resolve client now later p' e)) = []))"
proof -
  have "providerReady (onMessage m p)"
    using assms(1) by (simp add: onMessage_def)
  then have "providerReady p'"
    unfolding assms(2) by (rule steps_ready)
  then show ?thesis
    using resolve_passes_gate by blast
qed

theorem readiness_permanent_witness:
  "type provider_ready_message = EVENT_PROVIDER_READY \<and>
   providerReady (fold step [StreamClosed 5 5 0]
     (onMessage provider_ready_message (FlagdWebProvider_new False 0 0))) \<and>
   connectionError (fold step [StreamClosed 5 5 0]
     (onMessage provider_ready_message (FlagdWebProvider_new False 0 0))) \<and>
   snd (snd (resolve static_client 0 1
     (fold step [StreamClosed 5 5 0]
       (onMessage provider_ready_message (FlagdWebProvider_new False 0 0)))
     (BooleanEvaluation ''flag-a'' False []))) = [rpc_of (BooleanEvaluation ''flag-a'' False [])]"
  using readiness_permanent [of provider_ready_message
      "fold step [StreamClosed 5 5 0]
         (onMessage provider_ready_message (FlagdWebProvider_new False 0 0))"
      "[StreamClosed 5 5 0]" "FlagdWebProvider_new False 0 0" static_client 0 1
      "BooleanEvaluation ''flag-a'' False []"]
  by (simp add: provider_ready_message_def onMessage_def onClose_def FlagdWebProvider_new_def)

section \<open>Configuration changes\<close>

lemma split_head_composite:
  "split_head (A @ ''--'') = A \<Longrightarrow> split_head (A @ ''--'' @ h) = A"
  by (induction A rule: split_head.induct) (auto split: if_splits)

text \<open>
  A flag key survives the split of its composite keys exactly when it neither contains
  the separator nor ends in a hyphen.
\<close>

lemma split_head_flag_key:
  "split_head (A @ ''--'') = A \<longleftrightarrow> \<not> has_separator (A @ ''-'')"
  by (induction A rule: split_head.induct) auto

lemma del_entries: "entries (NodeCache_del k c) = filter (\<lambda>kw. fst kw \<noteq> k) (entries c)"
proof (cases "map_of (entries c) k")
  case None
  then have "k \<notin> fst ` set (entries c)"
    by (simp add: map_of_eq_None_iff)
  then have "filter (\<lambda>kw. fst kw \<noteq> k) (entries c) = entries c"
    by (intro filter_True) auto
  with None show ?thesis
    by (simp add: NodeCache_del_def)
next
  case (Some w)
  then show ?thesis
    by (simp add: NodeCache_del_def)
qed

lemma bust_entries:
  "entries (bust body k c) =
     filter (\<lambda>kw. \<not> (fst kw = k \<and> map_of body ''flagKey'' = Some (JStr (split_head (fst kw)))))
       (entries c)"
proof (cases "map_of body ''flagKey'' = Some (JStr (split_head k))")
  case True
  have "filter (\<lambda>kw. fst kw \<noteq> k) (entries c) =
      filter (\<lambda>kw. \<not> (fst kw = k \<and> map_of body ''flagKey'' = Some (JStr (split_head (fst kw)))))
        (entries c)"
    using True by (intro filter_cong) auto
  with True show ?thesis
    by (simp add: bust_def del_entries)
next
  case False
  have "filter (\<lambda>kw. \<not> (fst kw = k \<and> map_of body ''flagKey'' = Some (JStr (split_head (fst kw)))))
        (entries c) = entries c"
    using False by (intro filter_True) auto
  with False show ?thesis
    by (simp add: bust_def)
qed

lemma fold_bust_entries:
  "entries (fold (bust body) ks c) =
     filter (\<lambda>kw. \<not> (fst kw \<in> set ks \<and> map_of body ''flagKey'' = Some (JStr (split_head (fst kw)))))
       (entries c)"
proof (induction ks arbitrary: c)
  case Nil
  then show ?case by simp
next
  case (Cons k ks)
  have "entries (fold (bust body) (k # ks) c) = entries (fold (bust body) ks (bust body k c))"
    by simp
  also have "\<dots> =
      filter (\<lambda>kw. \<not> (fst kw \<in> set ks \<and> map_of body ''flagKey'' = Some (JStr (split_head (fst kw)))))
       (filter (\<lambda>kw. \<not> (fst kw = k \<and> map_of body ''flagKey'' = Some (JStr (split_head (fst kw)))))
         (entries c))"
    by (simp only: Cons.IH bust_entries)
  also have "\<dots> =
      filter (\<lambda>kw. \<not> (fst kw \<in> set (k # ks) \<and>
                       map_of body ''flagKey'' = Some (JStr (split_head (fst kw)))))
       (entries c)"
    unfolding filter_filter by (intro filter_cong) auto
  finally show ?case .
qed

lemma map_of_filter_key:
  "map_of (filter (\<lambda>kw. Q (fst kw)) xs) k = (if Q k then map_of xs k else None)"
  by (induction xs) auto

lemma configuration_change_entries:
  assumes "type m = EVENT_CONFIGURATION_CHANGE" and "data m = Some body"
  shows "entries (cache (onMessage m p)) =
     filter (\<lambda>kw. map_of body ''flagKey'' \<noteq> Some (JStr (split_head (fst kw)))) (entries (cache p))"
  using assms
  by (simp add: onMessage_def consts_defs fold_bust_entries NodeCache_keys_def)
     (rule filter_cong, auto)


lemma fold_bust_noop:
  "string_flagKey body = None \<Longrightarrow> fold (bust body) ks c = c"
proof (induction ks arbitrary: c)
  case Nil
  then show ?case by simp
next
  case (Cons k ks)
  from Cons.prems have "map_of body ''flagKey'' \<noteq> Some (JStr (split_head k))"
    by (auto simp: string_flagKey_def)
  with Cons show ?case by (simp add: bust_def)
qed

subsection \<open>Malformed notifications\<close>

text \<open>
  Claim C8, as the source has it. A configuration change that carries no payload makes
  the handler flush the whole cache. A configuration change whose payload is there but
  has no flag key that is a string removes nothing: the cache stays as it is. In either
  case the handler returns normally and leaves the readiness and connection-error flags
  as they are.
\<close>

theorem malformed_notification:
  assumes "type m = EVENT_CONFIGURATION_CHANGE"
  shows "(data m = None \<longrightarrow> entries (cache (onMessage m p)) = []) \<and>
         (\<forall>body. data m = Some body \<and> string_flagKey body = None \<longrightarrow>
            cache (onMessage m p) = cache p) \<and>
         providerReady (onMessage m p) = providerReady p \<and>
         connectionError (onMessage m p) = connectionError p"
  using assms
  by (auto simp: onMessage_def consts_defs NodeCache_flushAll_def fold_bust_noop
        split: option.splits)

theorem malformed_notification_witness:
  "type \<lparr>type = EVENT_CONFIGURATION_CHANGE, data = None\<rparr> = EVENT_CONFIGURATION_CHANGE \<and>
   data \<lparr>type = EVENT_CONFIGURATION_CHANGE, data = None\<rparr> = None \<and>
   entries (cache warm_provider) \<noteq> [] \<and>
   entries (cache (onMessage \<lparr>type = EVENT_CONFIGURATION_CHANGE, data = None\<rparr> warm_provider)) = [] \<and>
   type malformed_message = EVENT_CONFIGURATION_CHANGE \<and>
   data malformed_message = Some [(''type'', JStr ''write'')] \<and>
   string_flagKey [(''type'', JStr ''write'')] = None \<and>
   cache (onMessage malformed_message warm_provider) = cache warm_provider"
  using malformed_notification [of "\<lparr>type = EVENT_CONFIGURATION_CHANGE, data = None\<rparr>" warm_provider]
    malformed_notification [of malformed_message warm_provider]
  by (simp add: warm_provider_entries malformed_message_def string_flagKey_def)

text \<open>
  A payload that cannot be read as the expected body, here one without a flag key, is
  not answered with a flush: both entries of the sample provider stay.
\<close>

theorem malformed_counterexample:
  "type malformed_message = EVENT_CONFIGURATION_CHANGE \<and>
   data malformed_message = Some [(''type'', JStr ''write'')] \<and>
   entries (cache (onMessage malformed_message warm_provider)) = entries (cache warm_provider) \<and>
   entries (cache warm_provider) \<noteq> []"
  by (simp add: onMessage_def malformed_message_def consts_defs NodeCache_keys_def
      warm_provider_entries bust_def)

subsection \<open>Targeted invalidation\<close>

text \<open>
  A configuration change with a flag key removes exactly the entries whose key reads
  that flag key before its first separator. For flag keys that survive the split of
  their composite keys this removes the entries of the changed flag and no others.
\<close>

lemma string_flagKey_Some:
  "string_flagKey body = Some A \<longleftrightarrow> map_of body ''flagKey'' = Some (JStr A)"
  by (auto simp: string_flagKey_def split: option.splits JsonValue.splits)

lemma targeted_entries:
  assumes "type m = EVENT_CONFIGURATION_CHANGE" and "data m = Some body"
    and "string_flagKey body = Some A"
  shows "entries (cache (onMessage m p)) =
           filter (\<lambda>kw. split_head (fst kw) \<noteq> A) (entries (cache p))"
  using assms(3)
  unfolding configuration_change_entries [OF assms(1,2)] string_flagKey_Some
  by (intro filter_cong) auto

lemma targeted_separator_free:
  assumes "type m = EVENT_CONFIGURATION_CHANGE" and "data m = Some body"
    and "string_flagKey body = Some A"
    and "split_head (A @ ''--'') = A" and "split_head (B @ ''--'') = B" and "A \<noteq> B"
  shows "map_of (entries (cache (onMessage m p))) (reqHash A c) = None \<and>
         map_of (entries (cache (onMessage m p))) (reqHash B c') =
           map_of (entries (cache p)) (reqHash B c')"
proof -
  have a: "split_head (reqHash A c) = A"
    using split_head_composite [OF assms(4)] by (simp add: reqHash_def)
  have b: "split_head (reqHash B c') = B"
    using split_head_composite [OF assms(5)] by (simp add: reqHash_def)
  show ?thesis
    using a b assms(6)
    by (simp add: targeted_entries [OF assms(1-3)] map_of_filter_key [of "\<lambda>k. split_head k \<noteq> A"])
qed

lemma reqHash_hyphen_differ: "reqHash ''a-'' c \<noteq> reqHash ''a'' c"
  by (simp add: reqHash_def)

lemma hyphen_provider_entries:
  "entries (cache hyphen_provider) =
     [(reqHash ''a-'' [], \<lparr>expires = 0, stored = sample_details\<rparr>),
      (reqHash ''a'' [], \<lparr>expires = 0, stored = sample_details\<rparr>)]"
  by (simp add: hyphen_provider_def remember_def ready_provider_simps NodeCache_set_def
      NodeCache_store_def ready_provider_def onMessage_def provider_ready_message_def
      FlagdWebProvider_new_def NodeCache_new_def Let_def reqHash_hyphen_differ)

text \<open>
  Claim C5 fails on the code for a flag key that ends in a hyphen. The provider holds an
  entry for each of the distinct flags \<open>a-\<close> and \<open>a\<close>; neither key contains the separator.
  The composite key of \<open>a-\<close> reads \<open>a\<close> before its first separator, so a configuration
  change of \<open>a-\<close> removes nothing and leaves the entry of the changed flag in the cache,
  and a configuration change of \<open>a\<close> removes the entry of \<open>a-\<close> together with its own.
\<close>

theorem targeted_invalidation_trailing_hyphen:
  "''a-'' \<noteq> ''a'' \<and> \<not> has_separator ''a-'' \<and> \<not> has_separator ''a'' \<and>
   entries (cache hyphen_provider) =
     [(reqHash ''a-'' [], \<lparr>expires = 0, stored = sample_details\<rparr>),
      (reqHash ''a'' [], \<lparr>expires = 0, stored = sample_details\<rparr>)] \<and>
   entries (cache (onMessage (change_message ''a-'') hyphen_provider)) =
     [(reqHash ''a-'' [], \<lparr>expires = 0, stored = sample_details\<rparr>),
      (reqHash ''a'' [], \<lparr>expires = 0, stored = sample_details\<rparr>)] \<and>
   entries (cache (onMessage (change_message ''a'') hyphen_provider)) = []"
proof -
  have 1: "type (change_message k) = EVENT_CONFIGURATION_CHANGE"
    and 2: "data (change_message k) =
      Some [(''type'', JStr ''write''), (''source'', JStr ''flags.json''), (''flagKey'', JStr k)]"
    and 3: "string_flagKey [(''type'', JStr ''write''), (''source'', JStr ''flags.json''),
      (''flagKey'', JStr k)] = Some k" for k
    by (simp_all add: change_message_def string_flagKey_def)
  have s: "split_head (reqHash ''a-'' []) = ''a''" "split_head (reqHash ''a'' []) = ''a''"
    by (simp_all add: reqHash_def)
  show ?thesis
    by (simp add: targeted_entries [OF 1 2 3] hyphen_provider_entries s)
qed

section \<open>Retry termination\<close>

lemma retry_trace_last: "retry_trace rnd m m = [Opened m]"
  by (simp add: retry_trace_def)

lemma retry_trace_step:
  "i < m \<Longrightarrow> retry_trace rnd i m =
     [Opened i, Waited (real_of_int (i + 1) * rnd i * 300)] @ retry_trace rnd (i + 1) m"
  by (simp add: retry_trace_def upto_rec1 [of i "m - 1"])

lemma initStream_gives_up:
  "i \<le> m \<Longrightarrow>
   \<exists>p'. initStream msgs rnd i m p tr = Some (p', tr @ retry_trace rnd i m) \<and> connectionError p'"
proof (induction "nat (m - i)" arbitrary: i p tr)
  case 0
  then have "i = m" by simp
  then show ?case
    by (subst initStream.simps) (simp add: onClose_def retry_trace_last)
next
  case (Suc n)
  then have lt: "i < m" and n: "n = nat (m - (i + 1))" and le: "i + 1 \<le> m"
    by simp_all
  let ?p1 = "fold onMessage (msgs i) p"
  let ?tr1 = "tr @ [Opened i, Waited (real_of_int (i + 1) * rnd i * 300)]"
  from Suc.hyps(1) [OF n le, of ?p1 ?tr1]
  obtain p' where
    "initStream msgs rnd (i + 1) m ?p1 ?tr1 = Some (p', ?tr1 @ retry_trace rnd (i + 1) m)"
    and "connectionError p'"
    by blast
  then show ?case using lt
    by (subst initStream.simps) (simp add: onClose_def retry_trace_step)
qed

lemma attempts_retry_trace: "i \<le> m \<Longrightarrow> attempts (retry_trace rnd i m) = nat (m - i + 1)"
proof (induction "nat (m - i)" arbitrary: i)
  case 0
  then show ?case by (simp add: retry_trace_last attempts_def)
next
  case (Suc n)
  then have lt: "i < m" and n: "n = nat (m - (i + 1))" and le: "i + 1 \<le> m"
    by simp_all
  from Suc.hyps(1) [OF n le] lt show ?case
    by (simp add: retry_trace_step attempts_def nat_add_distrib)
qed

text \<open>
  Claim C7. For every \<open>maxRetries \<ge> 0\<close>, when every stream ends, \<^verbatim>\<open>initStream(0, maxRetries)\<close>
  comes to the point where the connection is given up and the connection-error flag is
  set. Up to then it has opened exactly \<open>maxRetries + 1\<close> streams, and between attempt
  \<open>j\<close> and the next it has waited \<open>(j + 1) * random * 300\<close> milliseconds.
\<close>

text \<open>
  Claim C7. For every \<open>maxRetries \<ge> 0\<close>, when every stream ends, \<^verbatim>\<open>initStream(0, maxRetries)\<close>
  comes to the point where the connection is given up and the connection-error flag is
  set. Up to then it has opened exactly \<open>maxRetries + 1\<close> streams, and between attempt
  \<open>j\<close> and the next it has waited \<open>(j + 1) * random * 300\<close> milliseconds.
\<close>

theorem retry_termination:
  assumes "0 \<le> maxRetries"
  shows "\<exists>p'. initStream msgs rnd 0 maxRetries p [] = Some (p', retry_trace rnd 0 maxRetries)
           \<and> connectionError p'
           \<and> attempts (retry_trace rnd 0 maxRetries) = nat (maxRetries + 1)"
  using initStream_gives_up [OF assms, of msgs rnd p "[]"] attempts_retry_trace [OF assms, of rnd]
  by simp

theorem retry_termination_witness:
  "(0::int) \<le> 2 \<and> (0::int) \<le> 0 \<and>
   (\<exists>p'. initStream (\<lambda>i. []) (\<lambda>i. 1 / 2) 0 2 (FlagdWebProvider_new True 0 0) [] =
       Some (p', [Opened 0, Waited 150, Opened 1, Waited 300, Opened 2])
     \<and> connectionError p'
     \<and> attempts [Opened 0, Waited 150, Opened 1, Waited 300, Opened 2] = 3) \<and>
   (\<exists>p'. initStream (\<lambda>i. []) (\<lambda>i. 1 / 2) 0 0 (FlagdWebProvider_new True 0 0) [] =
       Some (p', [Opened 0])
     \<and> connectionError p'
     \<and> attempts [Opened 0] = 1)"
  using retry_termination [of 2 "\<lambda>i. []" "\<lambda>i. 1 / 2" "FlagdWebProvider_new True 0 0"]
    retry_termination [of 0 "\<lambda>i. []" "\<lambda>i. 1 / 2" "FlagdWebProvider_new True 0 0"]
  by (simp add: retry_trace_def upto_rec1)

section \<open>The fingerprint\<close>

lemma context_eq_same_order:
  "set c1 = set c2 \<Longrightarrow> map fst c1 = map fst c2 \<Longrightarrow> distinct (map fst c1) \<Longrightarrow> c1 = c2"
proof (induction c1 arbitrary: c2)
  case Nil
  then show ?case by simp
next
  case (Cons kv c1)
  from Cons.prems(2) obtain kv' c2' where c2: "c2 = kv' # c2'"
    by (cases c2) auto
  from Cons.prems(2) c2 have ks: "map fst c1 = map fst c2'"
    by simp
  from Cons.prems(3) have d1: "fst kv \<notin> set (map fst c1)" and d: "distinct (map fst c1)"
    by simp_all
  from d1 ks have d2: "fst kv \<notin> set (map fst c2')"
    by simp
  have n1: "kv \<notin> set c1" using d1 by force
  have n2: "kv \<notin> set c2'" using d2 by force
  have "kv \<in> set c2" using Cons.prems(1) by auto
  with c2 n2 have e: "kv = kv'" by simp
  have "insert kv (set c1) = insert kv (set c2')"
    using Cons.prems(1) c2 e by simp
  with n1 n2 have "set c1 = set c2'"
    by (metis insert_ident)
  from Cons.IH [OF this ks d] c2 e show ?case by simp
qed


lemma sort_key_unique:
  fixes f :: "'a \<Rightarrow> 'b::linorder"
  assumes "set xs = set ys" and "distinct (map f xs)" and "distinct (map f ys)"
  shows "sort_key f xs = sort_key f ys"
proof -
  from assms(2) have inj: "inj_on f (set xs)"
    by (simp add: distinct_map)
  have "map f (sort_key f xs) = map f (sort_key f ys)"
  proof (rule sorted_distinct_set_unique)
    show "sorted (map f (sort_key f xs))" "sorted (map f (sort_key f ys))"
      by simp_all
    show "distinct (map f (sort_key f xs))"
      using assms(2) by (simp add: distinct_map)
    show "distinct (map f (sort_key f ys))"
      using assms(3) by (simp add: distinct_map)
    show "set (map f (sort_key f xs)) = set (map f (sort_key f ys))"
      using assms(1) by simp
  qed
  moreover have "inj_on f (set (sort_key f xs) \<union> set (sort_key f ys))"
    using inj assms(1) by simp
  ultimately show ?thesis
    by (simp add: inj_on_map_eq_map)
qed

lemma decimal_inj: "is_index a \<Longrightarrow> is_index b \<Longrightarrow> decimal a = decimal b \<Longrightarrow> a = b"
  by (metis is_index_def)

lemma property_order_eq:
  fixes a b :: "(string \<times> 'v) list"
  assumes "set a = set b" and "distinct (map fst a)" and "distinct (map fst b)"
    and "filter (\<lambda>k. \<not> is_index k) (map fst a) = filter (\<lambda>k. \<not> is_index k) (map fst b)"
  shows "property_order a = property_order b"
proof -
  let ?N = "filter (\<lambda>kv::string \<times> 'v. \<not> is_index (fst kv))"
  let ?I = "filter (\<lambda>kv::string \<times> 'v. is_index (fst kv))"
  let ?f = "\<lambda>kv::string \<times> 'v. decimal (fst kv)"
  have n: "?N a = ?N b"
  proof (rule context_eq_same_order)
    show "set (?N a) = set (?N b)"
      using assms(1) by simp
    show "map fst (?N a) = map fst (?N b)"
      using assms(4) by (simp add: filter_map o_def)
    show "distinct (map fst (?N a))"
      using assms(2) by (rule distinct_map_filter)
  qed
  have d: "distinct (map ?f (?I c))" if "distinct (map fst c)" for c :: "(string \<times> 'v) list"
  proof -
    from that have c: "distinct c" and i: "inj_on fst (set c)"
      by (simp_all add: distinct_map)
    have "inj_on ?f (set (?I c))"
    proof (rule inj_onI)
      fix x y
      assume "x \<in> set (?I c)" and "y \<in> set (?I c)" and "?f x = ?f y"
      then have "fst x = fst y" and "x \<in> set c" and "y \<in> set c"
        by (auto intro: decimal_inj)
      with i show "x = y"
        by (auto dest: inj_onD)
    qed
    with c show ?thesis
      by (simp add: distinct_map)
  qed
  have "sort_key ?f (?I a) = sort_key ?f (?I b)"
  proof (rule sort_key_unique)
    show "set (?I a) = set (?I b)"
      using assms(1) by simp
    show "distinct (map ?f (?I a))"
      using assms(2) by (rule d)
    show "distinct (map ?f (?I b))"
      using assms(3) by (rule d)
  qed
  with n show ?thesis
    by (simp add: property_order_def)
qed

text \<open>
  Claim C1, as the source has it. The cache key is computed from the flag key and the
  serialised context, and the serialisation follows the enumeration order of the
  properties. Two contexts that hold the same key/value pairs, under distinct names, and
  whose names that are not array indices were created in the same order get the same
  cache key, and the same request; the array indices may have been created in any order.
\<close>

theorem fingerprint_deterministic:
  assumes "context_equal c1 c2"
    and "distinct (map fst c1)" and "distinct (map fst c2)"
    and "filter (\<lambda>k. \<not> is_index k) (map fst c1) = filter (\<lambda>k. \<not> is_index k) (map fst c2)"
  shows "reqHash k c1 = reqHash k c2 \<and> Struct_fromJsonString c1 = Struct_fromJsonString c2"
proof -
  let ?g = "\<lambda>kv::string \<times> JsonValue. (fst kv, reparse (snd kv))"
  have "property_order (map ?g c1) = property_order (map ?g c2)"
  proof (rule property_order_eq)
    show "set (map ?g c1) = set (map ?g c2)"
      using assms(1) by (simp add: context_equal_def)
    show "distinct (map fst (map ?g c1))" "distinct (map fst (map ?g c2))"
      using assms(2,3) by (simp_all add: o_def)
    show "filter (\<lambda>k. \<not> is_index k) (map fst (map ?g c1)) =
        filter (\<lambda>k. \<not> is_index k) (map fst (map ?g c2))"
      using assms(4) by (simp add: o_def)
  qed
  then show ?thesis
    by (simp add: reqHash_def Struct_fromJsonString_def)
qed

theorem fingerprint_deterministic_witness:
  "context_equal [(''2'', JStr ''x''), (''a'', JNum 1), (''1'', JNull)]
     [(''a'', JNum 1), (''1'', JNull), (''2'', JStr ''x'')] \<and>
   distinct (map fst [(''2'', JStr ''x''), (''a'', JNum 1), (''1'', JNull)]) \<and>
   distinct (map fst [(''a'', JNum 1), (''1'', JNull), (''2'', JStr ''x'')]) \<and>
   filter (\<lambda>k. \<not> is_index k) (map fst [(''2'', JStr ''x''), (''a'', JNum 1), (''1'', JNull)]) =
     filter (\<lambda>k. \<not> is_index k) (map fst [(''a'', JNum 1), (''1'', JNull), (''2'', JStr ''x'')]) \<and>
   [(''2'', JStr ''x''), (''a'', JNum 1), (''1'', JNull)] \<noteq>
     [(''a'', JNum 1), (''1'', JNull), (''2'', JStr ''x'')] \<and>
   reqHash ''flag'' [(''2'', JStr ''x''), (''a'', JNum 1), (''1'', JNull)] =
     reqHash ''flag'' [(''a'', JNum 1), (''1'', JNull), (''2'', JStr ''x'')]"
proof -
  have 1: "context_equal [(''2'', JStr ''x''), (''a'', JNum 1), (''1'', JNull)]
      [(''a'', JNum 1), (''1'', JNull), (''2'', JStr ''x'')]"
    by (auto simp: context_equal_def)
  have 2: "distinct (map fst [(''2'', JStr ''x''), (''a'', JNum 1), (''1'', JNull)])"
    and 3: "distinct (map fst [(''a'', JNum 1), (''1'', JNull), (''2'', JStr ''x'')])"
    by simp_all
  have 4: "filter (\<lambda>k. \<not> is_index k)
        (map fst [(''2'', JStr ''x''), (''a'', JNum 1), (''1'', JNull)]) =
      filter (\<lambda>k. \<not> is_index k)
        (map fst [(''a'', JNum 1), (''1'', JNull), (''2'', JStr ''x'')])"
    by (simp add: is_index_def decimal_def is_digit_def)
  show ?thesis
    using fingerprint_deterministic [OF 1 2 3 4, of "''flag''"] 1 2 3 4 by simp
qed

text \<open>
  The same two pairs under the names \<open>a\<close> and \<open>b\<close>, created in the other order, are
  serialised to a different text, and the digests of the two texts differ.
\<close>

theorem fingerprint_order_counterexample:
  "context_equal [(''a'', JNum 1), (''b'', JNum 2)] [(''b'', JNum 2), (''a'', JNum 1)] \<and>
   reqHash ''flag'' [(''a'', JNum 1), (''b'', JNum 2)] \<noteq>
     reqHash ''flag'' [(''b'', JNum 2), (''a'', JNum 1)]"
proof -
  have "context_equal [(''a'', JNum 1), (''b'', JNum 2)] [(''b'', JNum 2), (''a'', JNum 1)]"
    by (auto simp: context_equal_def)
  moreover have "reqHash ''flag'' [(''a'', JNum 1), (''b'', JNum 2)] \<noteq>
      reqHash ''flag'' [(''b'', JNum 2), (''a'', JNum 1)]"
    by code_simp
  ultimately show ?thesis by simp
qed

section \<open>Size-based flush\<close>

lemma sum_update_vals:
  fixes g :: "'v \<Rightarrow> int"
  shows "(\<Sum>kw\<leftarrow>AList.update k w es. g (snd kw)) =
     (\<Sum>kw\<leftarrow>es. g (snd kw)) - (case map_of es k of None \<Rightarrow> 0 | Some w0 \<Rightarrow> g w0) + g w"
  by (induction es) auto

lemma sum_update_keys:
  fixes f :: "'k \<Rightarrow> int"
  shows "(\<Sum>kw\<leftarrow>AList.update k w es. f (fst kw)) =
     (\<Sum>kw\<leftarrow>es. f (fst kw)) + (if map_of es k = None then f k else 0)"
  by (induction es) auto

lemma sum_filter_key:
  fixes g :: "'k \<times> 'v \<Rightarrow> int"
  assumes "distinct (map fst es)" and "map_of es k = Some w"
  shows "(\<Sum>kw\<leftarrow>filter (\<lambda>kw. fst kw \<noteq> k) es. g kw) = (\<Sum>kw\<leftarrow>es. g kw) - g (k, w)"
  using assms
proof (induction es)
  case Nil
  then show ?case by simp
next
  case (Cons x es)
  show ?case
  proof (cases "fst x = k")
    case True
    with Cons.prems have x: "x = (k, w)" by (cases x) auto
    from Cons.prems True have "k \<notin> fst ` set es" by auto
    then have "filter (\<lambda>kw. fst kw \<noteq> k) es = es" by (intro filter_True) auto
    with x show ?thesis by simp
  next
    case False
    with Cons show ?thesis by auto
  qed
qed

lemma store_stats_ok: "stats_ok c \<Longrightarrow> stats_ok (NodeCache_store c k v now)"
  by (auto simp: stats_ok_def NodeCache_store_def Let_def distinct_update
        sum_update_vals [of "\<lambda>w. getValLength (stored w)"] sum_update_keys [of getKeyLength]
        split: option.splits)

lemma flush_stats_ok: "stats_ok (NodeCache_flushAll c)"
  by (simp add: stats_ok_def NodeCache_flushAll_def)

lemma del_stats_ok: "stats_ok c \<Longrightarrow> stats_ok (NodeCache_del k c)"
  by (auto simp: stats_ok_def NodeCache_del_def distinct_map_filter sum_filter_key
        split: option.splits)

lemma set_stats_ok: "stats_ok c \<Longrightarrow> stats_ok (NodeCache_set c k v now)"
  by (auto simp: NodeCache_set_def Let_def on_set_def store_stats_ok flush_stats_ok
        split: option.splits)

lemma listener_simps:
  "listener (NodeCache_flushAll c) = listener c"
  "listener (NodeCache_del k c) = listener c"
  "listener (NodeCache_store c k v now) = listener c"
  "listener (NodeCache_set c k v now) = listener c"
  "listener (snd (NodeCache_get c k now)) = listener c"
  by (auto simp: NodeCache_flushAll_def NodeCache_del_def NodeCache_store_def NodeCache_set_def
        NodeCache_get_def on_set_def Let_def split: option.splits)

lemma get_stats_ok: "stats_ok c \<Longrightarrow> stats_ok (snd (NodeCache_get c k now))"
  by (auto simp: NodeCache_get_def del_stats_ok split: option.splits)

lemma inv_flush: "cache_inv N c \<Longrightarrow> cache_inv N (NodeCache_flushAll c)"
  by (simp add: cache_inv_def flush_stats_ok listener_simps)

lemma inv_del: "cache_inv N c \<Longrightarrow> cache_inv N (NodeCache_del k c)"
  by (simp add: cache_inv_def del_stats_ok listener_simps)

lemma inv_set: "cache_inv N c \<Longrightarrow> cache_inv N (NodeCache_set c k v now)"
  by (simp add: cache_inv_def set_stats_ok listener_simps)

lemma inv_get: "cache_inv N c \<Longrightarrow> cache_inv N (snd (NodeCache_get c k now))"
  by (simp add: cache_inv_def get_stats_ok listener_simps)

lemma inv_fold_bust: "cache_inv N c \<Longrightarrow> cache_inv N (fold (bust body) ks c)"
  by (induction ks arbitrary: c) (simp_all add: bust_def inv_del Let_def)

lemma inv_onMessage: "cache_inv N (cache p) \<Longrightarrow> cache_inv N (cache (onMessage m p))"
  by (simp add: onMessage_def inv_flush inv_fold_bust split: option.splits)

lemma inv_cached: "cache_inv N (cache p) \<Longrightarrow> cache_inv N (cache (snd (cached p k now)))"
  using inv_get [of N "cache p" k now]
  by (cases "NodeCache_get (cache p) k now") (simp add: cached_def)

lemma inv_remember: "cache_inv N (cache p) \<Longrightarrow> cache_inv N (cache (remember p k d now))"
  by (simp add: remember_def inv_set)

lemma inv_get_pair:
  "NodeCache_get c k now = (r, c') \<Longrightarrow> cache_inv N c \<Longrightarrow> cache_inv N c'"
  using inv_get [of N c k now] by simp

lemma inv_resolve:
  assumes "cache_inv N (cache p)"
  shows "cache_inv N (cache (fst (snd (resolve client now later p e))))"
proof -
  have c: "\<And>k r p1. cached p k now = (r, p1) \<Longrightarrow> cache_inv N (cache p1)"
    using inv_cached [OF assms] by (metis snd_conv)
  show ?thesis
    by (cases e)
       (auto simp: resolve_defs Let_def assms inv_remember dest!: c elim: inv_get_pair
             split: prod.splits option.splits sum.splits)
qed

lemma inv_step: "cache_inv N (cache p) \<Longrightarrow> cache_inv N (cache (step op p))"
  by (cases op) (auto simp: inv_onMessage inv_resolve onClose_def)

lemma inv_steps: "cache_inv N (cache p) \<Longrightarrow> cache_inv N (cache (fold step ops p))"
  by (induction ops arbitrary: p) (simp_all add: inv_step)

lemma inv_new: "cache_inv N (cache (FlagdWebProvider_new b ttl N))"
  by (simp add: cache_inv_def FlagdWebProvider_new_def NodeCache_new_def stats_ok_def)

lemma stats_aggregate: "stats_ok c \<Longrightarrow> ksize c + vsize c = aggregate_size c"
  by (simp add: stats_ok_def aggregate_size_def sum_list_addf)

text \<open>
  Claim C6. In a provider constructed with \<^verbatim>\<open>cacheMaxBytes = N > 0\<close>, after any sequence
  of operations, an insertion leaves the store with an aggregate estimate (key sizes plus
  value sizes over all entries, which is what the totals report) of at most \<open>N\<close>, or
  empty. The insertion that takes the estimate above \<open>N\<close> removes every entry; any other
  insertion removes none.
\<close>

theorem size_based_flush:
  assumes "0 < N" and "p = fold step ops (FlagdWebProvider_new b ttl N)"
    and "c' = NodeCache_set (cache p) key val now"
  shows "(aggregate_size c' \<le> N \<or> entries c' = []) \<and>
         entries c' = (if N < aggregate_size (NodeCache_store (cache p) key val now) then []
                       else entries (NodeCache_store (cache p) key val now)) \<and>
         ksize c' + vsize c' = aggregate_size c'"
proof -
  have inv: "cache_inv N (cache p)"
    unfolding assms(2) by (rule inv_steps) (rule inv_new)
  then have l: "listener (cache p) = Some N" and s: "stats_ok (cache p)"
    using assms(1) by (simp_all add: cache_inv_def)
  let ?c1 = "NodeCache_store (cache p) key val now"
  have s1: "stats_ok ?c1" using s by (rule store_stats_ok)
  have a1: "ksize ?c1 + vsize ?c1 = aggregate_size ?c1" using s1 by (rule stats_aggregate)
  have c': "c' = on_set N ?c1"
    unfolding assms(3) using l by (simp add: NodeCache_set_def Let_def listener_simps)
  have s': "stats_ok c'" unfolding assms(3) using s by (rule set_stats_ok)
  show ?thesis
    using a1 stats_aggregate [OF s'] assms(1)
    by (auto simp: c' on_set_def NodeCache_flushAll_def aggregate_size_def)
qed

theorem size_based_flush_witness:
  "(0::int) < 100 \<and>
   entries (NodeCache_store (cache (FlagdWebProvider_new True 0 100))
     ''flag-a--0'' sample_details 0) \<noteq> [] \<and>
   entries (NodeCache_set (cache (FlagdWebProvider_new True 0 100))
     ''flag-a--0'' sample_details 0) = [] \<and>
   entries (NodeCache_set (cache (FlagdWebProvider_new True 0 300))
     ''flag-a--0'' sample_details 0) \<noteq> []"
  using size_based_flush [OF _ refl refl, where N = 100 and ops = "[]" and b = True and ttl = 0
      and key = "''flag-a--0''" and val = sample_details and now = 0]
    size_based_flush [OF _ refl refl, where N = 300 and ops = "[]" and b = True and ttl = 0
      and key = "''flag-a--0''" and val = sample_details and now = 0]
  by (simp add: aggregate_size_def NodeCache_store_def FlagdWebProvider_new_def
      NodeCache_new_def getKeyLength_def utf16_length_def getValLength_def sample_details_def)

section \<open>Cache hits\<close>

lemma get_keeps_options:
  "stdTTL (snd (NodeCache_get c k now)) = stdTTL c"
  "listener (snd (NodeCache_get c k now)) = listener c"
  by (auto simp: NodeCache_get_def NodeCache_del_def split: option.splits)

lemma store_lookup:
  "map_of (entries (NodeCache_store c k d t)) k =
     Some \<lparr>expires = (if stdTTL c = 0 then 0 else t + stdTTL c * 1000), stored = d\<rparr>"
  by (simp add: NodeCache_store_def Let_def update_conv')

lemma set_stays: "stays c k d t \<Longrightarrow> NodeCache_set c k d t = NodeCache_store c k d t"
  by (auto simp: NodeCache_set_def stays_def on_set_def Let_def listener_simps
        split: option.splits)

lemma get_live_entry:
  "map_of (entries c) k = Some w \<Longrightarrow> expires w = 0 \<or> now \<le> expires w \<Longrightarrow>
     NodeCache_get c k now = (Some (stored w), c)"
  by (auto simp: NodeCache_get_def)

lemma first_miss:
  assumes "providerReady p" and "cacheActive p"
    and "NodeCache_get (cache p) (key_of e) now = (None, c0)"
    and "remote_details client e = Some d"
  shows "resolve client now later p e =
     (Some d, p\<lparr>cache := NodeCache_set c0 (key_of e) d later\<rparr>, [rpc_of e])"
proof -
  have c: "cached p (key_of e) now = (None, p\<lparr>cache := c0\<rparr>)"
    using assms(2,3) by (simp add: cached_def)
  show ?thesis
    using assms(1,2,4) c
    by (cases e)
       (auto simp: resolve_defs Let_def remember_def split: sum.splits option.splits)
qed

lemma second_hit:
  assumes "providerReady p" and "cacheActive p"
    and "map_of (entries (cache p)) (key_of e) = Some w"
    and "expires w = 0 \<or> later \<le> expires w" and "now \<le> later"
  shows "resolve client now later p e = (Some (stored w), p, [])"
proof -
  from assms(4,5) have "expires w = 0 \<or> now \<le> expires w"
    by auto
  from get_live_entry [OF assms(3) this]
  have "cached p (key_of e) now = (Some (stored w), p)"
    using assms(2) by (simp add: cached_def)
  moreover have "NodeCache_get (cache p) (key_of e) later = (Some (stored w), cache p)"
    using assms(3,4) by (rule get_live_entry)
  ultimately show ?thesis
    using assms(1) by (cases e) (auto simp: resolve_defs Let_def)
qed

text \<open>
  Claim C4. With caching on, take a resolution call that misses the cache, is answered by
  the remote service with a value, and whose insertion stays in the store. The call
  invokes the remote operation once, returns the answer and stores it. A second call for
  the same flag key and context, made while the entry has not expired, returns the
  stored answer (the same value, reason and variant), invokes no remote operation
  whatever the remote service would answer now, and leaves the provider as it is.
\<close>

theorem cache_hit_avoids_network:
  assumes "providerReady p" and "cacheActive p"
    and "NodeCache_get (cache p) (key_of e) now1 = (None, c0)"
    and "remote_details client e = Some d"
    and "stays c0 (key_of e) d later1"
    and "stdTTL (cache p) = 0 \<or> later2 \<le> later1 + stdTTL (cache p) * 1000"
    and "now2 \<le> later2"
    and "resolve client now1 later1 p e = (r1, p1, calls1)"
  shows "r1 = Some d \<and> calls1 = [rpc_of e] \<and>
         map_option stored (map_of (entries (cache p1)) (key_of e)) = Some d \<and>
         resolve client' now2 later2 p1 e = (Some d, p1, [])"
proof -
  let ?w = "\<lparr>expires = (if stdTTL c0 = 0 then 0 else later1 + stdTTL c0 * 1000), stored = d\<rparr>"
  have ttl: "stdTTL c0 = stdTTL (cache p)"
    using get_keeps_options(1) [of "cache p" "key_of e" now1] assms(3) by simp
  from first_miss [OF assms(1-4), of later1] assms(8)
  have r: "r1 = Some d" and c: "calls1 = [rpc_of e]"
    and p1: "p1 = p\<lparr>cache := NodeCache_store c0 (key_of e) d later1\<rparr>"
    by (simp_all add: set_stays [OF assms(5)])
  have w: "map_of (entries (cache p1)) (key_of e) = Some ?w"
    by (simp add: p1 store_lookup)
  have live: "expires ?w = 0 \<or> later2 \<le> expires ?w"
    using assms(6) by (auto simp: ttl)
  have "resolve client' now2 later2 p1 e = (Some (stored ?w), p1, [])"
    using w live assms(7)
    by (intro second_hit) (simp_all add: p1 assms(1,2))
  with r c w show ?thesis
    by simp
qed

lemma expiring_provider_simps:
  "providerReady expiring_provider" "cacheActive expiring_provider"
  "cache expiring_provider = \<lparr>entries = [], ksize = 0, vsize = 0, stdTTL = 60, listener = None\<rparr>"
  by (simp_all add: expiring_provider_def onMessage_def provider_ready_message_def
      FlagdWebProvider_new_def NodeCache_new_def)

theorem cache_hit_avoids_network_witness:
  "providerReady expiring_provider \<and> cacheActive expiring_provider \<and>
   NodeCache_get (cache expiring_provider) (key_of (BooleanEvaluation ''flag-a'' False [])) 0 =
     (None, cache expiring_provider) \<and>
   remote_details static_client (BooleanEvaluation ''flag-a'' False []) = Some sample_details \<and>
   stays (cache expiring_provider) (key_of (BooleanEvaluation ''flag-a'' False []))
     sample_details 10 \<and>
   (5001::int) \<le> 10 + stdTTL (cache expiring_provider) * 1000 \<and>
   fst (resolve static_client 0 10 expiring_provider (BooleanEvaluation ''flag-a'' False [])) =
     Some sample_details \<and>
   snd (snd (resolve static_client 0 10 expiring_provider
     (BooleanEvaluation ''flag-a'' False []))) =
     [rpc_of (BooleanEvaluation ''flag-a'' False [])] \<and>
   resolve unavailable_client 5000 5001
     (fst (snd (resolve static_client 0 10 expiring_provider
        (BooleanEvaluation ''flag-a'' False []))))
     (BooleanEvaluation ''flag-a'' False []) =
     (Some sample_details,
      fst (snd (resolve static_client 0 10 expiring_provider
        (BooleanEvaluation ''flag-a'' False []))), [])"
proof -
  let ?e = "BooleanEvaluation ''flag-a'' False []"
  obtain r1 p1 calls1 where f: "resolve static_client 0 10 expiring_provider ?e = (r1, p1, calls1)"
    by (cases "resolve static_client 0 10 expiring_provider ?e") auto
  have 1: "providerReady expiring_provider" and 2: "cacheActive expiring_provider"
    by (simp_all add: expiring_provider_simps)
  have 3: "NodeCache_get (cache expiring_provider) (key_of ?e) 0 = (None, cache expiring_provider)"
    by (simp add: expiring_provider_simps NodeCache_get_def)
  have 4: "remote_details static_client ?e = Some sample_details"
    by (simp add: static_client_def sample_details_def)
  have 5: "stays (cache expiring_provider) (key_of ?e) sample_details 10"
    by (simp add: stays_def expiring_provider_simps)
  have 6: "stdTTL (cache expiring_provider) = 0 \<or>
      (5001::int) \<le> 10 + stdTTL (cache expiring_provider) * 1000"
    and 8: "(5001::int) \<le> 10 + stdTTL (cache expiring_provider) * 1000"
    by (simp_all add: expiring_provider_simps)
  have 7: "(5000::int) \<le> 5001"
    by simp
  from cache_hit_avoids_network [OF 1 2 3 4 5 6 7 f, of unavailable_client] f 1 2 3 4 5 8
  show ?thesis
    by simp
qed

text \<open>
  When the entry expires between the two cache reads of a call, the call makes no remote
  call either, and its promise resolves with \<^verbatim>\<open>undefined\<close>.
\<close>

lemma expiry_between_reads:
  "fst (resolve unavailable_client 60010 60011
     (fst (snd (resolve static_client 0 10 expiring_provider
        (BooleanEvaluation ''flag-a'' False []))))
     (BooleanEvaluation ''flag-a'' False [])) = None \<and>
   snd (snd (resolve unavailable_client 60010 60011
     (fst (snd (resolve static_client 0 10 expiring_provider
        (BooleanEvaluation ''flag-a'' False []))))
     (BooleanEvaluation ''flag-a'' False []))) = []"
proof -
  let ?e = "BooleanEvaluation ''flag-a'' False []"
  have 1: "providerReady expiring_provider" and 2: "cacheActive expiring_provider"
    by (simp_all add: expiring_provider_simps)
  have 3: "NodeCache_get (cache expiring_provider) (key_of ?e) 0 = (None, cache expiring_provider)"
    by (simp add: expiring_provider_simps NodeCache_get_def)
  have 4: "remote_details static_client ?e = Some sample_details"
    by (simp add: static_client_def sample_details_def)
  show ?thesis
    unfolding first_miss [OF 1 2 3 4]
    by (simp add: resolveBooleanEvaluation_def cached_def NodeCache_get_def NodeCache_set_def
        NodeCache_store_def expiring_provider_simps Let_def)
qed

end
